theory Spec2Isabelle
  imports Complex_Main
begin

section \<open>Order intake (OrderService) and the Event Publisher\<close>

subsection \<open>The request body and the arithmetic of the runtime\<close>

text \<open>
  \<open>createOrder\<close> receives \<open>req.body\<close> as the body parsers leave it: the route installs
  no validation middleware, so the order data is any value, and so is each of its
  fields. A value is \<open>undefined\<close> (what reading an absent property gives), \<open>null\<close>, a
  boolean, a number, a string, an array or an object; an object is the list of its own
  properties.

  A number is an IEEE double. The type \<open>'n\<close> stands for the doubles other than
  \<open>NaN\<close>, and the arithmetic of the runtime on them is a parameter: the constants
  \<open>0\<close> and \<open>1\<close>, the tests \<open>x === 0\<close> and \<open>x <= 0\<close>, the product and the sum of two
  doubles (each rounded as the runtime rounds it, and \<open>NaN\<close> where the runtime
  gives \<open>NaN\<close>), the conversion of a string to a number and of a number to a string.
  Every statement about the order service holds for whatever operations are put in.
\<close>

datatype 'n jsvalue =
    VUndefined
  | VNull
  | VBool bool
  | VNumber 'n
  | VString string
  | VArray "'n jsvalue list"
  | VObject "(string \<times> 'n jsvalue) list"

datatype 'n number = NaN | Val 'n

record 'n arith =
  num_zero :: 'n
  num_one :: 'n
  num_is_zero :: "'n \<Rightarrow> bool"
  num_le_zero :: "'n \<Rightarrow> bool"
  num_times :: "'n \<Rightarrow> 'n \<Rightarrow> 'n number"
  num_plus :: "'n \<Rightarrow> 'n \<Rightarrow> 'n number"
  string_to_number :: "string \<Rightarrow> 'n number"
  number_to_string :: "'n \<Rightarrow> string"

text \<open>
  Every \<open>throw new Error(message)\<close> of the two classes is one constructor; the item
  errors carry the number \<open>index + 1\<close> that the message prints. \<open>TypeError\<close> is the
  error that the runtime throws.
\<close>

datatype error =
    UserIdRequired
  | AtLeastOneItem
  | CustomerEmailRequired
  | CustomerNameRequired
  | ProductIdRequired nat
  | ProductTitleRequired nat
  | ValidQuantityRequired nat
  | ValidPriceRequired nat
  | TypeError string
  | RepositoryError string
  | EventPublishingFailed string

text \<open>
  \<open>value.key\<close>, for the property names that the service reads (\<open>userId\<close>, \<open>items\<close>,
  \<open>customerEmail\<close>, \<open>customerName\<close>, \<open>id\<close>, \<open>title\<close>, \<open>quantity\<close>, \<open>price\<close>), none of which
  is a property of a prototype: the own property of an object, \<open>undefined\<close> on any other
  value, and a \<open>TypeError\<close> on \<open>undefined\<close> and \<open>null\<close>.
\<close>

fun get :: "'n jsvalue \<Rightarrow> string \<Rightarrow> error + 'n jsvalue" where
  "get VUndefined k = Inl (TypeError ''Cannot read properties of undefined'')"
| "get VNull k = Inl (TypeError ''Cannot read properties of null'')"
| "get (VObject kvs) k = Inr (case map_of kvs k of None \<Rightarrow> VUndefined | Some v \<Rightarrow> v)"
| "get v k = Inr VUndefined"

text \<open>\<open>!x\<close> is the negation of \<open>truthy\<close>. A number in a request body is not \<open>NaN\<close>.\<close>

fun truthy :: "'n arith \<Rightarrow> 'n jsvalue \<Rightarrow> bool" where
  "truthy A VUndefined = False"
| "truthy A VNull = False"
| "truthy A (VBool b) = b"
| "truthy A (VNumber n) = (\<not> num_is_zero A n)"
| "truthy A (VString s) = (s \<noteq> [])"
| "truthy A (VArray xs) = True"
| "truthy A (VObject kvs) = True"

text \<open>
  The conversion of a value to a string, which the conversion of an array to a number
  goes through: an array is the \<open>join\<close> of its elements, where \<open>undefined\<close> and \<open>null\<close>
  are empty. An object of a request body has no callable property of its own, so its
  conversion gives \<open>[object Object]\<close>, or throws when the object has an own property
  \<open>toString\<close>.
\<close>

fun js_to_string :: "'n arith \<Rightarrow> 'n jsvalue \<Rightarrow> error + string"
  and join :: "'n arith \<Rightarrow> 'n jsvalue list \<Rightarrow> error + string"
where
  "js_to_string A VUndefined = Inr ''undefined''"
| "js_to_string A VNull = Inr ''null''"
| "js_to_string A (VBool b) = Inr (if b then ''true'' else ''false'')"
| "js_to_string A (VNumber n) = Inr (number_to_string A n)"
| "js_to_string A (VString s) = Inr s"
| "js_to_string A (VArray xs) = join A xs"
| "js_to_string A (VObject kvs) =
     (if ''toString'' \<in> fst ` set kvs
      then Inl (TypeError ''Cannot convert object to primitive value'')
      else Inr ''[object Object]'')"
| "join A [] = Inr []"
| "join A (x # xs) =
     (case (case x of VUndefined \<Rightarrow> Inr [] | VNull \<Rightarrow> Inr [] | _ \<Rightarrow> js_to_string A x) of
        Inl e \<Rightarrow> Inl e
      | Inr s \<Rightarrow>
          (case xs of
             [] \<Rightarrow> Inr s
           | y # ys \<Rightarrow> (case join A xs of Inl e \<Rightarrow> Inl e | Inr t \<Rightarrow> Inr (s @ '','' @ t))))"

text \<open>
  \<open>ToNumber\<close>, which \<open>*\<close> and \<open><=\<close> apply to their operands: \<open>undefined\<close> is \<open>NaN\<close>,
  \<open>null\<close> is \<open>0\<close>, a string is converted, an array is converted through its string,
  and an object is \<open>NaN\<close> (the number that \<open>[object Object]\<close> converts to).
\<close>

fun to_number :: "'n arith \<Rightarrow> 'n jsvalue \<Rightarrow> error + 'n number" where
  "to_number A VUndefined = Inr NaN"
| "to_number A VNull = Inr (Val (num_zero A))"
| "to_number A (VBool b) = Inr (Val (if b then num_one A else num_zero A))"
| "to_number A (VNumber n) = Inr (Val n)"
| "to_number A (VString s) = Inr (string_to_number A s)"
| "to_number A (VArray xs) =
     (case join A xs of Inl e \<Rightarrow> Inl e | Inr s \<Rightarrow> Inr (string_to_number A s))"
| "to_number A (VObject kvs) =
     (if ''toString'' \<in> fst ` set kvs
      then Inl (TypeError ''Cannot convert object to primitive value'')
      else Inr NaN)"

text \<open>The product and the sum of two numbers: \<open>NaN\<close> if either is \<open>NaN\<close>.\<close>

fun times_number :: "'n arith \<Rightarrow> 'n number \<Rightarrow> 'n number \<Rightarrow> 'n number" where
  "times_number A (Val a) (Val b) = num_times A a b"
| "times_number A a b = NaN"

fun plus_number :: "'n arith \<Rightarrow> 'n number \<Rightarrow> 'n number \<Rightarrow> 'n number" where
  "plus_number A (Val a) (Val b) = num_plus A a b"
| "plus_number A a b = NaN"

text \<open>\<open>x * y\<close> and \<open>x <= 0\<close> on values; a comparison with \<open>NaN\<close> is false.\<close>

definition js_times :: "'n arith \<Rightarrow> 'n jsvalue \<Rightarrow> 'n jsvalue \<Rightarrow> error + 'n number" where
  "js_times A x y =
     (case to_number A x of
        Inl e \<Rightarrow> Inl e
      | Inr a \<Rightarrow> (case to_number A y of Inl e \<Rightarrow> Inl e | Inr b \<Rightarrow> Inr (times_number A a b)))"

definition js_le_zero :: "'n arith \<Rightarrow> 'n jsvalue \<Rightarrow> error + bool" where
  "js_le_zero A x =
     (case to_number A x of
        Inl e \<Rightarrow> Inl e
      | Inr NaN \<Rightarrow> Inr False
      | Inr (Val n) \<Rightarrow> Inr (num_le_zero A n))"

subsection \<open>validateOrderData and calculateTotal\<close>

text \<open>\<open>!x || x <= 0\<close>, the test that the item loop applies to the quantity and the price.\<close>

definition falsy_or_le_zero :: "'n arith \<Rightarrow> 'n jsvalue \<Rightarrow> error + bool" where
  "falsy_or_le_zero A x = (if \<not> truthy A x then Inr True else js_le_zero A x)"

text \<open>The callback of \<open>orderData.items.forEach((item, index) => ...)\<close>, item by item.\<close>

fun validateItems :: "'n arith \<Rightarrow> nat \<Rightarrow> 'n jsvalue list \<Rightarrow> error + unit" where
  "validateItems A index [] = Inr ()"
| "validateItems A index (item # rest) =
     (case get item ''id'' of
        Inl e \<Rightarrow> Inl e
      | Inr itemId \<Rightarrow>
          if \<not> truthy A itemId then Inl (ProductIdRequired (index + 1))
          else
            (case get item ''title'' of
               Inl e \<Rightarrow> Inl e
             | Inr title \<Rightarrow>
                 if \<not> truthy A title then Inl (ProductTitleRequired (index + 1))
                 else
                   (case get item ''quantity'' of
                      Inl e \<Rightarrow> Inl e
                    | Inr quantity \<Rightarrow>
                        (case falsy_or_le_zero A quantity of
                           Inl e \<Rightarrow> Inl e
                         | Inr True \<Rightarrow> Inl (ValidQuantityRequired (index + 1))
                         | Inr False \<Rightarrow>
                             (case get item ''price'' of
                                Inl e \<Rightarrow> Inl e
                              | Inr price \<Rightarrow>
                                  (case falsy_or_le_zero A price of
                                     Inl e \<Rightarrow> Inl e
                                   | Inr True \<Rightarrow> Inl (ValidPriceRequired (index + 1))
                                   | Inr False \<Rightarrow> validateItems A (index + 1) rest))))))"

definition validateOrderData :: "'n arith \<Rightarrow> 'n jsvalue \<Rightarrow> error + unit" where
  "validateOrderData A orderData =
     (case get orderData ''userId'' of
        Inl e \<Rightarrow> Inl e
      | Inr userId \<Rightarrow>
          if \<not> truthy A userId then Inl UserIdRequired
          else
            (case get orderData ''items'' of
               Inl e \<Rightarrow> Inl e
             | Inr (VArray its) \<Rightarrow>
                 if length its = 0 then Inl AtLeastOneItem
                 else
                   (case get orderData ''customerEmail'' of
                      Inl e \<Rightarrow> Inl e
                    | Inr customerEmail \<Rightarrow>
                        if \<not> truthy A customerEmail then Inl CustomerEmailRequired
                        else
                          (case get orderData ''customerName'' of
                             Inl e \<Rightarrow> Inl e
                           | Inr customerName \<Rightarrow>
                               if \<not> truthy A customerName then Inl CustomerNameRequired
                               else validateItems A 0 its))
             | Inr other \<Rightarrow> Inl AtLeastOneItem))"

text \<open>
  \<open>items.reduce((total, item) => total + (item.quantity * item.price), 0)\<close>: the
  amount of one item, and the reduction from the left, starting from \<open>0\<close>.
\<close>

definition item_amount :: "'n arith \<Rightarrow> 'n jsvalue \<Rightarrow> error + 'n number" where
  "item_amount A item =
     (case get item ''quantity'' of
        Inl e \<Rightarrow> Inl e
      | Inr quantity \<Rightarrow>
          (case get item ''price'' of
             Inl e \<Rightarrow> Inl e
           | Inr price \<Rightarrow> js_times A quantity price))"

fun reduce_total :: "'n arith \<Rightarrow> 'n number \<Rightarrow> 'n jsvalue list \<Rightarrow> error + 'n number" where
  "reduce_total A tot [] = Inr tot"
| "reduce_total A tot (item # rest) =
     (case item_amount A item of
        Inl e \<Rightarrow> Inl e
      | Inr amount \<Rightarrow> reduce_total A (plus_number A tot amount) rest)"

definition calculateTotal :: "'n arith \<Rightarrow> 'n jsvalue \<Rightarrow> error + 'n number" where
  "calculateTotal A items =
     (case items of
        VArray its \<Rightarrow> reduce_total A (Val (num_zero A)) its
      | _ \<Rightarrow> Inl (TypeError ''items.reduce is not a function''))"

text \<open>The object literal \<open>orderToSave\<close> that \<open>createOrder\<close> hands to the repository.\<close>

record 'n order_to_save =
  os_userId :: "'n jsvalue"
  os_items :: "'n jsvalue"
  os_totalAmount :: "'n number"
  os_customerEmail :: "'n jsvalue"
  os_customerName :: "'n jsvalue"
  os_status :: string

subsection \<open>The Event Publisher\<close>

text \<open>
  The event object built by \<open>publishOrderCreated\<close> and by the builder functions of the
  schema module. A key that the object literal does not have is \<open>None\<close>. The payload
  \<open>order.toEventData()\<close> has the type \<open>'d\<close>: the order model is supplied by the
  repository.
\<close>

record 'd envelope =
  env_id :: "string option"
  env_type :: "string option"
  env_timestamp :: "string option"
  env_version :: "string option"
  env_source :: "string option"
  env_data :: "'d option"

text \<open>
  The argument of \<open>producer.send\<close>: one message on the topic. \<open>value\<close> is
  \<open>JSON.stringify(event)\<close>; the model keeps the event object itself, whose keys are the
  keys of the serialised text.
\<close>

record 'd kafka_message =
  km_topic :: string
  km_key :: string
  km_value :: "'d envelope"
  km_timestamp :: string
  km_header_event_type :: "string option"
  km_header_event_version :: "string option"
  km_header_source_service :: "string option"

record record_metadata =
  rm_partition :: nat
  rm_offset :: string

text \<open>
  The collaborators of the order service that the source receives by injection: the
  repository (\<open>save\<close>, the saved order's \<open>orderId\<close> and \<open>toEventData()\<close>), the Kafka
  producer (\<open>send\<close>) and the clock (\<open>new Date().toISOString()\<close>, \<open>Date.now()\<close>).
  Each is a parameter of the model; a rejected promise is \<open>Inl\<close> of the message of
  the error it rejects with.
\<close>

record ('n, 'so, 'd) collaborators =
  repo_save :: "'n order_to_save \<Rightarrow> string + 'so"
  so_orderId :: "'so \<Rightarrow> string"
  so_toEventData :: "'so \<Rightarrow> 'd"
  producer_send :: "'d kafka_message \<Rightarrow> string + record_metadata list"
  now_iso :: string
  now_millis :: string

text \<open>
  The effects of the order service on its collaborators, in call order: the orders
  handed to \<open>orderRepository.save\<close> and the messages handed to \<open>producer.send\<close>.
\<close>

record ('n, 'd) world =
  save_calls :: "'n order_to_save list"
  send_calls :: "'d kafka_message list"

definition topic :: string where
  "topic = ''order-events''"

text \<open>
  \<open>publishEvent\<close>: any exception inside the \<open>try\<close> block (a rejected \<open>send\<close>, or
  reading \<open>result[0].partition\<close> of an empty result) is rethrown as
  \<open>Event publishing failed: ...\<close>.
\<close>

definition publishEvent ::
  "('n, 'so, 'd) collaborators \<Rightarrow> 'd envelope \<Rightarrow> string \<Rightarrow> ('n, 'd) world
     \<Rightarrow> (error + record_metadata list) \<times> ('n, 'd) world" where
  "publishEvent C event key w =
     (let message = \<lparr> km_topic = topic, km_key = key, km_value = event,
                       km_timestamp = now_millis C,
                       km_header_event_type = env_type event,
                       km_header_event_version = env_version event,
                       km_header_source_service = env_source event \<rparr>;
          w' = w\<lparr> send_calls := send_calls w @ [message] \<rparr>
      in case producer_send C message of
           Inl m \<Rightarrow> (Inl (EventPublishingFailed m), w')
         | Inr [] \<Rightarrow> (Inl (EventPublishingFailed ''Cannot read properties of undefined''), w')
         | Inr (r # rs) \<Rightarrow> (Inr (r # rs), w'))"

definition orderCreatedEvent :: "('n, 'so, 'd) collaborators \<Rightarrow> 'so \<Rightarrow> 'd envelope" where
  "orderCreatedEvent C order =
     \<lparr> env_id = None,
       env_type = Some ''ORDER_CREATED'',
       env_timestamp = Some (now_iso C),
       env_version = Some ''1.0'',
       env_source = Some ''order-service'',
       env_data = Some (so_toEventData C order) \<rparr>"

definition publishOrderCreated ::
  "('n, 'so, 'd) collaborators \<Rightarrow> 'so \<Rightarrow> ('n, 'd) world
     \<Rightarrow> (error + record_metadata list) \<times> ('n, 'd) world" where
  "publishOrderCreated C order w = publishEvent C (orderCreatedEvent C order) (so_orderId C order) w"

text \<open>\<open>EventBuilder.createOrderCreatedEvent\<close> of the schema module; \<open>uuid\<close> is \<open>crypto.randomUUID()\<close>.\<close>

definition createOrderCreatedEvent :: "string \<Rightarrow> string \<Rightarrow> 'd \<Rightarrow> string \<Rightarrow> 'd envelope" where
  "createOrderCreatedEvent uuid now orderData source =
     \<lparr> env_id = Some uuid,
       env_type = Some ''ORDER_CREATED'',
       env_timestamp = Some now,
       env_version = Some ''1.0'',
       env_source = Some source,
       env_data = Some orderData \<rparr>"

subsection \<open>createOrder\<close>

text \<open>
  Validation, then the object literal, whose fields are evaluated in order (the total
  is \<open>this.calculateTotal(orderData.items)\<close>), then \<open>save\<close>, then the publication of
  the event. An exception at any step leaves through the \<open>catch\<close> block, which logs
  and rethrows the same error.
\<close>

definition createOrder ::
  "'n arith \<Rightarrow> ('n, 'so, 'd) collaborators \<Rightarrow> 'n jsvalue \<Rightarrow> ('n, 'd) world
     \<Rightarrow> (error + 'so) \<times> ('n, 'd) world" where
  "createOrder A C orderData w =
     (case validateOrderData A orderData of
        Inl e \<Rightarrow> (Inl e, w)
      | Inr u \<Rightarrow>
     (case get orderData ''userId'' of
        Inl e \<Rightarrow> (Inl e, w)
      | Inr userId \<Rightarrow>
     (case get orderData ''items'' of
        Inl e \<Rightarrow> (Inl e, w)
      | Inr items \<Rightarrow>
     (case calculateTotal A items of
        Inl e \<Rightarrow> (Inl e, w)
      | Inr totalAmount \<Rightarrow>
     (case get orderData ''customerEmail'' of
        Inl e \<Rightarrow> (Inl e, w)
      | Inr customerEmail \<Rightarrow>
     (case get orderData ''customerName'' of
        Inl e \<Rightarrow> (Inl e, w)
      | Inr customerName \<Rightarrow>
          (let orderToSave =
                 \<lparr> os_userId = userId,
                   os_items = items,
                   os_totalAmount = totalAmount,
                   os_customerEmail = customerEmail,
                   os_customerName = customerName,
                   os_status = ''PENDING'' \<rparr>;
               w1 = w\<lparr> save_calls := save_calls w @ [orderToSave] \<rparr>
           in case repo_save C orderToSave of
                Inl m \<Rightarrow> (Inl (RepositoryError m), w1)
              | Inr savedOrder \<Rightarrow>
                  (case publishOrderCreated C savedOrder w1 of
                     (Inl e, w2) \<Rightarrow> (Inl e, w2)
                   | (Inr r, w2) \<Rightarrow> (Inr savedOrder, w2)))))))))"

section \<open>The notification service\<close>

subsection \<open>Events, errors and the console\<close>

text \<open>
  An event as the consumer hands it to the handler: the object parsed from the
  record's JSON text. The envelope declares \<open>type\<close> and \<open>timestamp\<close> as strings and
  \<open>data\<close> as an object; a key that is absent is \<open>None\<close>. Of the payload the handler
  reads \<open>orderId\<close> and \<open>customerEmail\<close>.
\<close>

record event_data =
  ed_orderId :: "string option"
  ed_customerEmail :: "string option"

record event =
  ev_type :: "string option"
  ev_timestamp :: "string option"
  ev_data :: "event_data option"

text \<open>JavaScript truthiness of an optional string.\<close>

fun truthy_str :: "string option \<Rightarrow> bool" where
  "truthy_str None = False"
| "truthy_str (Some s) = (s \<noteq> [])"

text \<open>A thrown \<open>Error\<close> object, with its message.\<close>

datatype js_error = JsError string

text \<open>The lines that the handler and the consumer write to the console, by call site.\<close>

datatype console_line =
    WarnInvalidEvent
  | LogDuplicateIgnored "string option" string
  | LogProcessingEvent "string option" "string option"
  | LogIgnoringType "string option"
  | LogProcessed "string option" string
  | ErrFailedToProcessEvent js_error
  | LogNewOrder "string option" "string option"
  | LogConfirmationSent nat nat
  | ErrConfirmationFailed js_error
  | ErrFailedToParse js_error
  | LogReceivedMessage string
  | LogMessageProcessed string
  | ErrFailedToProcessMessage string js_error
  | ErrProcessingMessage js_error

subsection \<open>The Notification Orchestrator (NotificationService)\<close>

record send_result =
  sr_success :: bool
  sr_messageId :: string
  sr_recipient :: "string option"
  sr_subject :: string

record notification =
  n_type :: string
  n_status :: string
  n_result :: "send_result option"
  n_error :: "string option"

record notification_result =
  nr_orderId :: "string option"
  nr_notifications :: "notification list"
  nr_timestamp :: string

record history_entry =
  he_type :: string
  he_result :: notification_result
  he_timestamp :: string

text \<open>
  The two channel senders that the constructor receives. The mock senders fail at
  random, so the outcome of a send is a parameter: \<open>Inl\<close> is the error the sender
  throws, \<open>Inr\<close> the result it returns.
\<close>

record channels =
  email_sendOrderConfirmation :: "event_data \<Rightarrow> js_error + send_result"
  sms_sendOrderConfirmationSMS :: "event_data \<Rightarrow> js_error + send_result"

text \<open>
  The state of the service: the \<open>notificationHistory\<close> map, keyed by the order id
  (which may be \<open>undefined\<close>), and the calls made on each channel sender, in order.
\<close>

record nservice =
  notificationHistory :: "string option \<rightharpoonup> history_entry list"
  email_calls :: "event_data list"
  sms_calls :: "event_data list"

definition storeNotificationHistory ::
  "string option \<Rightarrow> string \<Rightarrow> notification_result \<Rightarrow> string \<Rightarrow> nservice \<Rightarrow> nservice" where
  "storeNotificationHistory orderId ty result now ns =
     (let h = (case notificationHistory ns orderId of None \<Rightarrow> [] | Some entries \<Rightarrow> entries)
      in ns\<lparr> notificationHistory := (notificationHistory ns)
                 (orderId \<mapsto> h @ [\<lparr> he_type = ty, he_result = result, he_timestamp = now \<rparr>]) \<rparr>)"

definition getNotificationHistory :: "string option \<Rightarrow> nservice \<Rightarrow> history_entry list" where
  "getNotificationHistory orderId ns =
     (case notificationHistory ns orderId of None \<Rightarrow> [] | Some entries \<Rightarrow> entries)"

text \<open>
  \<open>sendOrderConfirmation\<close>: one \<open>try\<close>/\<open>catch\<close> around the email sender, then the history.
  Both copies of the class in the repository have this body.
\<close>

definition sendOrderConfirmation ::
  "channels \<Rightarrow> string \<Rightarrow> event_data \<Rightarrow> nservice \<Rightarrow> (js_error + notification_result) \<times> nservice" where
  "sendOrderConfirmation ch now orderData ns =
     (let ns1 = ns\<lparr> email_calls := email_calls ns @ [orderData] \<rparr>;
          entry = (case email_sendOrderConfirmation ch orderData of
                     Inr emailResult \<Rightarrow>
                       \<lparr> n_type = ''email'', n_status = ''success'',
                         n_result = Some emailResult, n_error = None \<rparr>
                   | Inl (JsError m) \<Rightarrow>
                       \<lparr> n_type = ''email'', n_status = ''failed'',
                         n_result = None, n_error = Some m \<rparr>);
          results = \<lparr> nr_orderId = ed_orderId orderData, nr_notifications = [entry],
                      nr_timestamp = now \<rparr>
      in (Inr results,
          storeNotificationHistory (ed_orderId orderData) ''ORDER_CONFIRMATION'' results now ns1))"

subsection \<open>The Event Handler (OrderEventHandler)\<close>

text \<open>
  The handler receives its notification service by injection: any function from the
  payload and the service's state to an outcome and a new state. The handler's own
  state is the \<open>processedEvents\<close> set, a JavaScript \<open>Set\<close>, which keeps its members in
  insertion order: a list without repetitions. The state also carries the state of the
  injected service, the payloads with which the handler has called
  \<open>sendOrderConfirmation\<close>, in order, and the console.
\<close>

type_synonym 'ns orchestrator =
  "event_data \<Rightarrow> 'ns \<Rightarrow> (js_error + notification_result) \<times> 'ns"

record 'ns handler_state =
  processedEvents :: "string list"
  service :: 'ns
  orchestrator_calls :: "event_data list"
  console :: "console_line list"

definition initial_state :: "'ns \<Rightarrow> 'ns handler_state" where
  "initial_state ns =
     \<lparr> processedEvents = [], service = ns, orchestrator_calls = [], console = [] \<rparr>"

definition say :: "console_line \<Rightarrow> 'ns handler_state \<Rightarrow> 'ns handler_state" where
  "say line s = s\<lparr> console := console s @ [line] \<rparr>"

text \<open>\<open>Set.prototype.add\<close>, and \<open>Array.prototype.slice(-n)\<close> on the members in insertion order.\<close>

definition set_add :: "string \<Rightarrow> string list \<Rightarrow> string list" where
  "set_add x xs = (if x \<in> set xs then xs else xs @ [x])"

definition slice_last :: "nat \<Rightarrow> 'a list \<Rightarrow> 'a list" where
  "slice_last n xs = drop (length xs - n) xs"

definition isValidEvent :: "event \<Rightarrow> bool" where
  "isValidEvent event =
     (truthy_str (ev_type event) \<and> truthy_str (ev_timestamp event) \<and> ev_data event \<noteq> None)"

text \<open>\<open>x || y\<close> on an optional string: \<open>y\<close> when \<open>x\<close> is absent or empty.\<close>

fun or_else :: "string option \<Rightarrow> string \<Rightarrow> string" where
  "or_else None y = y"
| "or_else (Some x) y = (if x = [] then y else x)"

text \<open>
  \<open>generateEventId\<close>: \<open>event.data?.orderId || 'unknown'\<close>, \<open>event.timestamp || Date.now()\<close>,
  and the template \<open>`${type}-${orderId}-${timestamp}`\<close>, which prints an absent type as
  \<open>undefined\<close>. \<open>now\<close> is the clock.
\<close>

definition generateEventId :: "string \<Rightarrow> event \<Rightarrow> string" where
  "generateEventId now event =
     (let orderId = or_else (case ev_data event of None \<Rightarrow> None | Some d \<Rightarrow> ed_orderId d)
                      ''unknown'';
          timestamp = or_else (ev_timestamp event) now;
          type = (case ev_type event of None \<Rightarrow> ''undefined'' | Some t \<Rightarrow> t)
      in type @ ''-'' @ orderId @ ''-'' @ timestamp)"

definition handleOrderCreated ::
  "'ns orchestrator \<Rightarrow> event \<Rightarrow> 'ns handler_state \<Rightarrow> (js_error + unit) \<times> 'ns handler_state" where
  "handleOrderCreated notificationService event s =
     (case ev_data event of
        None \<Rightarrow> (Inl (JsError ''Cannot read properties of undefined''), s)
      | Some orderData \<Rightarrow>
          (let s1 = say (LogNewOrder (ed_orderId orderData) (ed_customerEmail orderData)) s;
               s2 = s1\<lparr> orchestrator_calls := orchestrator_calls s1 @ [orderData] \<rparr>
           in case notificationService orderData (service s2) of
                (Inr notificationResult, ns) \<Rightarrow>
                  (Inr (),
                   say (LogConfirmationSent (length (nr_notifications notificationResult))
                          (length (filter (\<lambda>n. n_status n = ''success'')
                                     (nr_notifications notificationResult))))
                     (s2\<lparr> service := ns \<rparr>))
              | (Inl err, ns) \<Rightarrow>
                  (Inl err, say (ErrConfirmationFailed err) (s2\<lparr> service := ns \<rparr>))))"

definition handle ::
  "'ns orchestrator \<Rightarrow> string \<Rightarrow> event \<Rightarrow> 'ns handler_state
     \<Rightarrow> (js_error + unit) \<times> 'ns handler_state" where
  "handle notificationService now event s =
     (if \<not> isValidEvent event then (Inr (), say WarnInvalidEvent s)
      else
        let eventId = generateEventId now event in
        if eventId \<in> set (processedEvents s)
        then (Inr (), say (LogDuplicateIgnored (ev_type event) eventId) s)
        else
          let s1 = say (LogProcessingEvent (ev_type event)
                          (case ev_data event of None \<Rightarrow> None | Some d \<Rightarrow> ed_orderId d)) s
          in
          if ev_type event = Some ''ORDER_CREATED''
          then
            (case handleOrderCreated notificationService event s1 of
               (Inl err, s2) \<Rightarrow> (Inl err, say (ErrFailedToProcessEvent err) s2)
             | (Inr u, s2) \<Rightarrow>
                 (let s3 = s2\<lparr> processedEvents := set_add eventId (processedEvents s2) \<rparr>;
                      s4 = (if length (processedEvents s3) > 1000
                            then s3\<lparr> processedEvents := slice_last 500 (processedEvents s3) \<rparr>
                            else s3)
                  in (Inr (), say (LogProcessed (ev_type event) eventId) s4)))
          else (Inr (), say (LogIgnoringType (ev_type event)) s1))"

subsection \<open>The Consumer (OrderEventConsumer)\<close>

text \<open>
  A Kafka record, and what the consumer uses from its environment: \<open>JSON.parse\<close>
  (\<open>Inl\<close> of the message of the exception when the text does not parse to an object)
  and the \<open>heartbeat\<close> function that the Kafka client passes in (\<open>Some\<close> of an error when
  it rejects). \<open>parseMessage\<close> also attaches a \<open>metadata\<close> object to the event, which the
  handler never reads.
\<close>

record kafka_record =
  rec_value :: string
  rec_offset :: string

record consumer_env =
  json_parse :: "string \<Rightarrow> string + event"
  heartbeat :: "js_error option"

definition parseMessage ::
  "consumer_env \<Rightarrow> kafka_record \<Rightarrow> 'ns handler_state \<Rightarrow> (js_error + event) \<times> 'ns handler_state" where
  "parseMessage env message s =
     (case json_parse env (rec_value message) of
        Inr event \<Rightarrow> (Inr event, s)
      | Inl m \<Rightarrow>
          (Inl (JsError (''Message parsing failed: '' @ m)),
           say (ErrFailedToParse (JsError m)) s))"

text \<open>\<open>processMessage\<close>: its \<open>catch\<close> block logs the failure and rethrows the error.\<close>

definition processMessage ::
  "consumer_env \<Rightarrow> 'ns orchestrator \<Rightarrow> string \<Rightarrow> kafka_record \<Rightarrow> 'ns handler_state
     \<Rightarrow> (js_error + unit) \<times> 'ns handler_state" where
  "processMessage env notificationService now message s =
     (case parseMessage env message s of
        (Inl err, s1) \<Rightarrow> (Inl err, say (ErrFailedToProcessMessage (rec_offset message) err) s1)
      | (Inr event, s1) \<Rightarrow>
          (let s2 = say (LogReceivedMessage (rec_offset message)) s1
           in case heartbeat env of
                Some err \<Rightarrow>
                  (Inl err, say (ErrFailedToProcessMessage (rec_offset message) err) s2)
              | None \<Rightarrow>
                  (case handle notificationService now event s2 of
                     (Inl err, s3) \<Rightarrow>
                       (Inl err, say (ErrFailedToProcessMessage (rec_offset message) err) s3)
                   | (Inr u, s3) \<Rightarrow>
                       (Inr (), say (LogMessageProcessed (rec_offset message)) s3))))"

text \<open>
  The \<open>eachMessage\<close> callback that \<open>start\<close> registers with \<open>consumer.run\<close>: its \<open>catch\<close>
  block logs the error and does not rethrow it.
\<close>

definition eachMessage ::
  "consumer_env \<Rightarrow> 'ns orchestrator \<Rightarrow> string \<Rightarrow> kafka_record \<Rightarrow> 'ns handler_state
     \<Rightarrow> (js_error + unit) \<times> 'ns handler_state" where
  "eachMessage env notificationService now message s =
     (case processMessage env notificationService now message s of
        (Inl err, s1) \<Rightarrow> (Inr (), say (ErrProcessingMessage err) s1)
      | (Inr u, s1) \<Rightarrow> (Inr (), s1))"

text \<open>The handler called on a sequence of events, one after the other, as the consumer does.\<close>

fun handle_all ::
  "'ns orchestrator \<Rightarrow> string \<Rightarrow> event list \<Rightarrow> 'ns handler_state \<Rightarrow> 'ns handler_state" where
  "handle_all notificationService now [] s = s"
| "handle_all notificationService now (event # events) s =
     handle_all notificationService now events (snd (handle notificationService now event s))"


section \<open>The event schema module (EventValidator)\<close>

subsection \<open>JSON values and Joi schemas\<close>

text \<open>
  The validator receives any object. A value is a JSON value, or a \<open>Date\<close> (which the
  date rule produces); an object is the list of its properties, in order, and
  \<open>map_of\<close> reads a property.
\<close>

datatype json =
    JNull
  | JBool bool
  | JNum rat
  | JStr string
  | JDate string
  | JArr "json list"
  | JObj "(string \<times> json) list"

type_synonym object = "(string \<times> json) list"

fun obj_set :: "string \<Rightarrow> json \<Rightarrow> object \<Rightarrow> object" where
  "obj_set k v [] = [(k, v)]"
| "obj_set k v ((k', v') # kvs) = (if k = k' then (k, v) # kvs else (k', v') # obj_set k v kvs)"

text \<open>
  The schemas of the module are built with the Joi library, which is not part of the
  repository. The schema constructors that the module uses are a datatype:
  \<open>Joi.string()\<close> with \<open>uuid()\<close>, \<open>email()\<close> or \<open>valid(...)\<close>, \<open>Joi.date().iso()\<close>,
  \<open>Joi.number()\<close> with \<open>positive()\<close> or \<open>integer().min(n)\<close>, \<open>Joi.object()\<close> without and with
  keys, and \<open>Joi.array().items(s).min(n)\<close>. A key of an object schema has a presence
  (\<open>required()\<close>, or optional, which is Joi's default), an optional \<open>default(v)\<close> and a
  schema.
\<close>

datatype presence = Required | Optional

datatype leaf =
    StringAny
  | StringUuid
  | StringEmail
  | StringValid "string list"
  | DateIso
  | NumberPositive
  | NumberIntegerMin nat

datatype schema =
    Leaf leaf
  | ObjectAny
  | ObjectKeys fields
  | ArrayItems schema nat
and fields =
    FNil
  | FCons string presence "json option" schema fields

fun field_names :: "fields \<Rightarrow> string list" where
  "field_names FNil = []"
| "field_names (FCons k p d sch rest) = k # field_names rest"

text \<open>
  What Joi decides by a regular expression or by a conversion is a parameter: the
  recognisers of GUIDs and of e-mail addresses, and the date and number rules, which
  return the converted value or the message of the error.
\<close>

record joi =
  is_guid :: "string \<Rightarrow> bool"
  is_email :: "string \<Rightarrow> bool"
  date_iso :: "json \<Rightarrow> string + json"
  number_positive :: "json \<Rightarrow> string + json"
  number_integer_min :: "nat \<Rightarrow> json \<Rightarrow> string + json"

text \<open>\<open>Joi.string()\<close> accepts a string that is not empty and returns it unchanged.\<close>

fun leaf_check :: "joi \<Rightarrow> leaf \<Rightarrow> json \<Rightarrow> string + json" where
  "leaf_check J StringAny v =
     (case v of
        JStr s \<Rightarrow> if s = [] then Inl ''is not allowed to be empty'' else Inr v
      | _ \<Rightarrow> Inl ''must be a string'')"
| "leaf_check J StringUuid v =
     (case v of
        JStr s \<Rightarrow> if s = [] then Inl ''is not allowed to be empty''
                  else if is_guid J s then Inr v else Inl ''must be a valid GUID''
      | _ \<Rightarrow> Inl ''must be a string'')"
| "leaf_check J StringEmail v =
     (case v of
        JStr s \<Rightarrow> if s = [] then Inl ''is not allowed to be empty''
                  else if is_email J s then Inr v else Inl ''must be a valid email''
      | _ \<Rightarrow> Inl ''must be a string'')"
| "leaf_check J (StringValid allowed) v =
     (case v of
        JStr s \<Rightarrow> if s \<in> set allowed then Inr v else Inl ''must be one of the allowed values''
      | _ \<Rightarrow> Inl ''must be one of the allowed values'')"
| "leaf_check J DateIso v = date_iso J v"
| "leaf_check J NumberPositive v = number_positive J v"
| "leaf_check J (NumberIntegerMin n) v = number_integer_min J n v"

text \<open>
  \<open>schema.validate(value)\<close> with no options, as the module calls it, so under Joi's
  default preferences: the first error ends the validation (\<open>abortEarly\<close>), a key of
  the value that the object schema does not declare is an error (\<open>allowUnknown\<close> is
  off, and so is \<open>stripUnknown\<close>), a required key that is absent is an error, an
  absent optional key takes its default when it has one, and the result is a new
  object: the input is not written to.
\<close>

fun validate_value :: "joi \<Rightarrow> schema \<Rightarrow> json \<Rightarrow> string + json"
  and validate_fields :: "joi \<Rightarrow> fields \<Rightarrow> object \<Rightarrow> string + object"
  and validate_items :: "joi \<Rightarrow> schema \<Rightarrow> json list \<Rightarrow> string + json list"
where
  "validate_value J (Leaf l) v = leaf_check J l v"
| "validate_value J ObjectAny v =
     (case v of JObj kvs \<Rightarrow> Inr v | _ \<Rightarrow> Inl ''must be of type object'')"
| "validate_value J (ObjectKeys fs) v =
     (case v of
        JObj kvs \<Rightarrow>
          (case validate_fields J fs kvs of
             Inl e \<Rightarrow> Inl e
           | Inr kvs' \<Rightarrow>
               (case filter (\<lambda>k. k \<notin> set (field_names fs)) (map fst kvs) of
                  [] \<Rightarrow> Inr (JObj kvs')
                | k # ks \<Rightarrow> Inl (k @ '' is not allowed'')))
      | _ \<Rightarrow> Inl ''must be of type object'')"
| "validate_value J (ArrayItems item n) v =
     (case v of
        JArr xs \<Rightarrow>
          (case validate_items J item xs of
             Inl e \<Rightarrow> Inl e
           | Inr xs' \<Rightarrow>
               if length xs' < n then Inl ''does not contain enough items'' else Inr (JArr xs'))
      | _ \<Rightarrow> Inl ''must be an array'')"
| "validate_fields J FNil kvs = Inr kvs"
| "validate_fields J (FCons k p d sch rest) kvs =
     (case map_of kvs k of
        None \<Rightarrow>
          (case p of
             Required \<Rightarrow> Inl (k @ '' is required'')
           | Optional \<Rightarrow>
               validate_fields J rest (case d of None \<Rightarrow> kvs | Some dv \<Rightarrow> obj_set k dv kvs))
      | Some v \<Rightarrow>
          (case validate_value J sch v of
             Inl e \<Rightarrow> Inl e
           | Inr v' \<Rightarrow> validate_fields J rest (obj_set k v' kvs)))"
| "validate_items J item [] = Inr []"
| "validate_items J item (x # xs) =
     (case validate_value J item x of
        Inl e \<Rightarrow> Inl e
      | Inr x' \<Rightarrow>
          (case validate_items J item xs of Inl e \<Rightarrow> Inl e | Inr xs' \<Rightarrow> Inr (x' # xs')))"

text \<open>\<open>schema.keys({...})\<close>: a key that the schema already has is replaced, a new one added.\<close>

fun remove_field :: "string \<Rightarrow> fields \<Rightarrow> fields" where
  "remove_field k FNil = FNil"
| "remove_field k (FCons k' p d sch rest) =
     (if k = k' then remove_field k rest else FCons k' p d sch (remove_field k rest))"

fun append_fields :: "fields \<Rightarrow> fields \<Rightarrow> fields" where
  "append_fields FNil gs = gs"
| "append_fields (FCons k p d sch rest) gs = FCons k p d sch (append_fields rest gs)"

fun remove_fields :: "string list \<Rightarrow> fields \<Rightarrow> fields" where
  "remove_fields [] fs = fs"
| "remove_fields (k # ks) fs = remove_fields ks (remove_field k fs)"

definition keys :: "fields \<Rightarrow> fields \<Rightarrow> fields" where
  "keys fs gs = append_fields (remove_fields (field_names gs) fs) gs"

subsection \<open>The schemas of the module\<close>

definition baseEventSchema :: fields where
  "baseEventSchema =
     FCons ''id'' Required None (Leaf StringUuid)
    (FCons ''type'' Required None (Leaf StringAny)
    (FCons ''timestamp'' Required None (Leaf DateIso)
    (FCons ''version'' Optional (Some (JStr ''1.0'')) (Leaf StringAny)
    (FCons ''source'' Required None (Leaf StringAny)
    (FCons ''data'' Required None ObjectAny
    (FCons ''metadata'' Optional None ObjectAny FNil))))))"

definition customerInfoSchema :: schema where
  "customerInfoSchema =
     ObjectKeys
       (FCons ''email'' Required None (Leaf StringEmail)
       (FCons ''phone'' Optional None (Leaf StringAny)
       (FCons ''name'' Required None (Leaf StringAny) FNil)))"

definition orderStatusValues :: "string list" where
  "orderStatusValues =
     [''PENDING'', ''CONFIRMED'', ''PROCESSING'', ''SHIPPED'', ''DELIVERED'', ''CANCELLED'']"

definition orderCreatedEventSchema :: fields where
  "orderCreatedEventSchema =
     keys baseEventSchema
       (FCons ''type'' Required None (Leaf (StringValid [''ORDER_CREATED'']))
       (FCons ''data'' Required None
          (ObjectKeys
            (FCons ''orderId'' Required None (Leaf StringAny)
            (FCons ''userId'' Required None (Leaf StringAny)
            (FCons ''items'' Required None
               (ArrayItems
                  (ObjectKeys
                    (FCons ''productId'' Required None (Leaf StringAny)
                    (FCons ''name'' Required None (Leaf StringAny)
                    (FCons ''quantity'' Required None (Leaf (NumberIntegerMin 1))
                    (FCons ''price'' Required None (Leaf NumberPositive) FNil)))))
                  1)
            (FCons ''totalAmount'' Required None (Leaf NumberPositive)
            (FCons ''shippingAddress'' Required None
               (ObjectKeys
                 (FCons ''street'' Required None (Leaf StringAny)
                 (FCons ''city'' Required None (Leaf StringAny)
                 (FCons ''state'' Required None (Leaf StringAny)
                 (FCons ''zipCode'' Required None (Leaf StringAny)
                 (FCons ''country'' Required None (Leaf StringAny) FNil))))))
            (FCons ''paymentMethod'' Required None (Leaf StringAny)
            (FCons ''customerInfo'' Required None customerInfoSchema FNil))))))))
        FNil))"

definition orderStatusUpdatedEventSchema :: fields where
  "orderStatusUpdatedEventSchema =
     keys baseEventSchema
       (FCons ''type'' Required None (Leaf (StringValid [''ORDER_STATUS_UPDATED'']))
       (FCons ''data'' Required None
          (ObjectKeys
            (FCons ''orderId'' Required None (Leaf StringAny)
            (FCons ''userId'' Required None (Leaf StringAny)
            (FCons ''oldStatus'' Required None (Leaf (StringValid orderStatusValues))
            (FCons ''newStatus'' Required None (Leaf (StringValid orderStatusValues))
            (FCons ''reason'' Optional None (Leaf StringAny)
            (FCons ''updatedBy'' Optional None (Leaf StringAny)
            (FCons ''estimatedDelivery'' Optional None (Leaf DateIso)
            (FCons ''trackingNumber'' Optional None (Leaf StringAny)
            (FCons ''customerInfo'' Required None customerInfoSchema FNil))))))))))
        FNil))"

definition orderCancelledEventSchema :: fields where
  "orderCancelledEventSchema =
     keys baseEventSchema
       (FCons ''type'' Required None (Leaf (StringValid [''ORDER_CANCELLED'']))
       (FCons ''data'' Required None
          (ObjectKeys
            (FCons ''orderId'' Required None (Leaf StringAny)
            (FCons ''userId'' Required None (Leaf StringAny)
            (FCons ''reason'' Required None (Leaf StringAny)
            (FCons ''refundAmount'' Optional None (Leaf NumberPositive)
            (FCons ''refundMethod'' Optional None (Leaf StringAny)
            (FCons ''cancelledBy'' Required None (Leaf StringAny)
            (FCons ''customerInfo'' Required None customerInfoSchema FNil))))))))
        FNil))"

definition healthCheckEventSchema :: fields where
  "healthCheckEventSchema =
     keys baseEventSchema
       (FCons ''type'' Required None (Leaf (StringValid [''HEALTH_CHECK'']))
       (FCons ''data'' Required None
          (ObjectKeys
            (FCons ''service'' Required None (Leaf StringAny)
            (FCons ''status'' Required None (Leaf (StringValid [''UP'', ''DOWN'', ''DEGRADED'']))
            (FCons ''checks'' Optional None ObjectAny
            (FCons ''timestamp'' Required None (Leaf DateIso) FNil)))))
        FNil))"

text \<open>The registry \<open>eventSchemas\<close>, an object literal with four keys.\<close>

definition eventSchemas :: "(string \<times> fields) list" where
  "eventSchemas =
     [(''ORDER_CREATED'', orderCreatedEventSchema),
      (''ORDER_STATUS_UPDATED'', orderStatusUpdatedEventSchema),
      (''ORDER_CANCELLED'', orderCancelledEventSchema),
      (''HEALTH_CHECK'', healthCheckEventSchema)]"

text \<open>
  The names that \<open>eventSchemas[event.type]\<close> finds on \<open>Object.prototype\<close>: the value is
  truthy and has no \<open>validate\<close> method, so the call throws and the \<open>catch\<close> block of
  \<open>validate\<close> answers.
\<close>

definition object_prototype_names :: "string list" where
  "object_prototype_names =
     [''constructor'', ''hasOwnProperty'', ''isPrototypeOf'', ''propertyIsEnumerable'',
      ''toLocaleString'', ''toString'', ''valueOf'', ''__proto__'', ''__defineGetter__'',
      ''__defineSetter__'', ''__lookupGetter__'', ''__lookupSetter__'']"

subsection \<open>EventValidator.validate\<close>

text \<open>The four shapes of the object that \<open>validate\<close> returns.\<close>

datatype validation =
    Valid json
  | BaseValidationFailed string
  | UnknownEventType string
  | EventValidationFailed string
  | ValidationError string

fun isValid :: "validation \<Rightarrow> bool" where
  "isValid (Valid v) = True"
| "isValid r = False"

text \<open>
  \<open>validate\<close>: the base schema first, then the schema registered for \<open>event.type\<close>, on
  the same \<open>event\<close>; the value of the second validation is returned. After the base
  schema has accepted the event, \<open>event.type\<close> is a string.
\<close>

definition validate :: "joi \<Rightarrow> object \<Rightarrow> validation" where
  "validate J event =
     (case validate_value J (ObjectKeys baseEventSchema) (JObj event) of
        Inl m \<Rightarrow> BaseValidationFailed m
      | Inr b \<Rightarrow>
          (case map_of event ''type'' of
             Some (JStr ty) \<Rightarrow>
               (case map_of eventSchemas ty of
                  None \<Rightarrow>
                    if ty \<in> set object_prototype_names
                    then ValidationError ''eventSchema.validate is not a function''
                    else UnknownEventType ty
                | Some eventSchema \<Rightarrow>
                    (case validate_value J (ObjectKeys eventSchema) (JObj event) of
                       Inl m \<Rightarrow> EventValidationFailed m
                     | Inr v \<Rightarrow> Valid v))
           | _ \<Rightarrow> ValidationError ''event.type is not a string''))"

section \<open>Notions used in the statements\<close>


text \<open>
  The number of \<open>ORDER_CREATED\<close> events in a sequence of deliveries: only these can
  add an identity to the set of the handler.
\<close>

definition created_count :: "event list \<Rightarrow> nat" where
  "created_count events = length (filter (\<lambda>e. ev_type e = Some ''ORDER_CREATED'') events)"

text \<open>The number of entries of a notification record that have a given status.\<close>

definition count_status :: "string \<Rightarrow> notification_result \<Rightarrow> nat" where
  "count_status st r = length (filter (\<lambda>n. n_status n = st) (nr_notifications r))"

text \<open>
  The keys of an object schema that carry a default, and the default of a key. The
  seven keys of the event envelope, in the order that \<open>keys\<close> leaves them in.
\<close>

fun default_names :: "fields \<Rightarrow> string list" where
  "default_names FNil = []"
| "default_names (FCons k p d sch rest) =
     (case d of None \<Rightarrow> default_names rest | Some dv \<Rightarrow> k # default_names rest)"

fun has_default :: "fields \<Rightarrow> string \<Rightarrow> json \<Rightarrow> bool" where
  "has_default FNil k dv = False"
| "has_default (FCons k' p d sch rest) k dv =
     (if k = k' then p = Optional \<and> d = Some dv else has_default rest k dv)"

definition envelope_keys :: "string list" where
  "envelope_keys = [''id'', ''timestamp'', ''version'', ''source'', ''metadata'', ''type'', ''data'']"

section \<open>Example data\<close>

text \<open>
  An arithmetic to run the examples in: the exact arithmetic of the rationals, which
  agrees with the arithmetic of doubles wherever no rounding occurs. Its conversions
  between strings and numbers cover the unsigned decimal integers (the empty string
  is \<open>0\<close>, as in the runtime); any other string is \<open>NaN\<close>.
\<close>

definition digit_of :: "char \<Rightarrow> nat option" where
  "digit_of c =
     (let code = (of_char c :: nat)
      in if 48 \<le> code \<and> code \<le> 57 then Some (code - 48) else None)"

fun parse_digits :: "nat \<Rightarrow> string \<Rightarrow> nat option" where
  "parse_digits acc [] = Some acc"
| "parse_digits acc (c # cs) =
     (case digit_of c of None \<Rightarrow> None | Some d \<Rightarrow> parse_digits (10 * acc + d) cs)"

fun show_digits :: "nat \<Rightarrow> nat \<Rightarrow> string" where
  "show_digits 0 n = []"
| "show_digits (Suc fuel) n =
     (if n < 10 then [char_of (48 + n)]
      else show_digits fuel (n div 10) @ [char_of (48 + n mod 10)])"

definition exact_arith :: "rat arith" where
  "exact_arith =
     \<lparr> num_zero = 0,
       num_one = 1,
       num_is_zero = (\<lambda>x. x = 0),
       num_le_zero = (\<lambda>x. x \<le> 0),
       num_times = (\<lambda>a b. Val (a * b)),
       num_plus = (\<lambda>a b. Val (a + b)),
       string_to_number =
         (\<lambda>s. case parse_digits 0 s of None \<Rightarrow> NaN | Some n \<Rightarrow> Val (of_nat n)),
       number_to_string = (\<lambda>x. show_digits (Suc (nat \<lfloor>x\<rfloor>)) (nat \<lfloor>x\<rfloor>)) \<rparr>"

text \<open>
  Concrete collaborators and inputs, on which the theorems below are instantiated: a
  repository that returns the order it is given, a producer that accepts every
  message, the order of the specification's scenario, and the same order with other
  quantities: zero, the string \<open>abc\<close>, and an empty object.
\<close>

definition example_collaborators ::
    "(rat, rat order_to_save, rat order_to_save) collaborators" where
  "example_collaborators =
     \<lparr> repo_save = (\<lambda>ord. Inr ord),
       so_orderId = (\<lambda>ord. ''order-1''),
       so_toEventData = (\<lambda>ord. ord),
       producer_send = (\<lambda>m. Inr [\<lparr> rm_partition = 0, rm_offset = ''0'' \<rparr>]),
       now_iso = ''2024-01-01T00:00:00.000Z'',
       now_millis = ''1704067200000'' \<rparr>"

definition empty_world :: "(rat, rat order_to_save) world" where
  "empty_world = \<lparr> save_calls = [], send_calls = [] \<rparr>"

definition example_properties :: "rat jsvalue \<Rightarrow> (string \<times> rat jsvalue) list" where
  "example_properties quantity =
     [(''userId'', VString ''u1''),
      (''items'', VArray [VObject [(''id'', VNumber 1), (''title'', VString ''Widget''),
                                   (''quantity'', quantity),
                                   (''price'', VNumber (999 / 100))]]),
      (''customerEmail'', VString ''a@b.com''),
      (''customerName'', VString ''A'')]"

definition example_order_with :: "rat jsvalue \<Rightarrow> rat jsvalue" where
  "example_order_with quantity = VObject (example_properties quantity)"

definition example_order :: "rat jsvalue" where
  "example_order = example_order_with (VNumber 2)"

definition example_saved_order :: "rat order_to_save" where
  "example_saved_order =
     \<lparr> os_userId = VString ''u1'',
       os_items = VArray [VObject [(''id'', VNumber 1), (''title'', VString ''Widget''),
                                   (''quantity'', VNumber 2),
                                   (''price'', VNumber (999 / 100))]],
       os_totalAmount = Val (1998 / 100),
       os_customerEmail = VString ''a@b.com'',
       os_customerName = VString ''A'',
       os_status = ''PENDING'' \<rparr>"

text \<open>
  Channel senders that succeed, an empty notification service, an \<open>ORDER_CREATED\<close>
  event, an event of another type, an \<open>ORDER_CREATED\<close> event without an order id, a
  family of \<open>ORDER_CREATED\<close> events with distinct order ids and the first 1000 of
  them, the handler after the example event and after these 1000 events as well, a
  handler state whose set holds 1000 identities, an email sender that is down, a
  notification service that throws, and a consumer environment with one record.
\<close>

definition example_channels :: channels where
  "example_channels =
     \<lparr> email_sendOrderConfirmation =
         (\<lambda>d. Inr \<lparr> sr_success = True, sr_messageId = ''email-1'',
                     sr_recipient = ed_customerEmail d, sr_subject = ''Order Confirmation'' \<rparr>),
       sms_sendOrderConfirmationSMS =
         (\<lambda>d. Inr \<lparr> sr_success = True, sr_messageId = ''sms-1'',
                     sr_recipient = None, sr_subject = [] \<rparr>) \<rparr>"

definition example_service :: nservice where
  "example_service = \<lparr> notificationHistory = Map.empty, email_calls = [], sms_calls = [] \<rparr>"

definition example_event :: event where
  "example_event =
     \<lparr> ev_type = Some ''ORDER_CREATED'', ev_timestamp = Some ''2024-01-01T00:00:00.000Z'',
       ev_data = Some \<lparr> ed_orderId = Some ''o1'', ed_customerEmail = Some ''a@b.com'' \<rparr> \<rparr>"

definition example_other_event :: event where
  "example_other_event =
     \<lparr> ev_type = Some ''ORDER_CANCELLED'', ev_timestamp = Some ''2024-01-01T00:00:00.000Z'',
       ev_data = Some \<lparr> ed_orderId = Some ''o1'', ed_customerEmail = Some ''a@b.com'' \<rparr> \<rparr>"

definition example_anonymous_event :: "string \<Rightarrow> event" where
  "example_anonymous_event email =
     \<lparr> ev_type = Some ''ORDER_CREATED'', ev_timestamp = Some ''2024-01-01T00:00:00.000Z'',
       ev_data = Some \<lparr> ed_orderId = None, ed_customerEmail = Some email \<rparr> \<rparr>"

definition numbered_data :: "nat \<Rightarrow> event_data" where
  "numbered_data n =
     \<lparr> ed_orderId = Some (CHR ''n'' # replicate n (CHR ''a'')),
       ed_customerEmail = Some ''a@b.com'' \<rparr>"

definition numbered_event :: "nat \<Rightarrow> event" where
  "numbered_event n =
     \<lparr> ev_type = Some ''ORDER_CREATED'', ev_timestamp = Some ''2024-01-01T00:00:00.000Z'',
       ev_data = Some (numbered_data n) \<rparr>"

definition newer_events :: "event list" where
  "newer_events = map numbered_event [0..<1000]"

definition handled_once :: "nservice handler_state" where
  "handled_once =
     snd (handle (sendOrderConfirmation example_channels ''t'') ''0'' example_event
            (initial_state example_service))"

definition handled_newer :: "nservice handler_state" where
  "handled_newer =
     handle_all (sendOrderConfirmation example_channels ''t'') ''0'' newer_events handled_once"

definition example_ids :: "string list" where
  "example_ids = map (\<lambda>n. CHR ''x'' # replicate n (CHR ''a'')) [0..<1000]"

definition example_full_state :: "nservice handler_state" where
  "example_full_state =
     \<lparr> processedEvents = example_ids, service = example_service,
       orchestrator_calls = [], console = [] \<rparr>"

definition email_down_channels :: channels where
  "email_down_channels =
     example_channels\<lparr> email_sendOrderConfirmation :=
       (\<lambda>d. Inl (JsError ''Mock email service temporarily unavailable'')) \<rparr>"

definition failing_service :: "nservice orchestrator" where
  "failing_service = (\<lambda>d ns. (Inl (JsError ''notification service down''), ns))"

definition example_env :: consumer_env where
  "example_env = \<lparr> json_parse = (\<lambda>text. Inr example_event), heartbeat = None \<rparr>"

definition example_record :: kafka_record where
  "example_record = \<lparr> rec_value = ''{}'', rec_offset = ''42'' \<rparr>"

text \<open>
  Recognisers for the validator, and a \<open>HEALTH_CHECK\<close> event without a \<open>version\<close>.
\<close>

definition example_joi :: joi where
  "example_joi =
     \<lparr> is_guid = (\<lambda>s. length s = 36),
       is_email = (\<lambda>s. CHR ''@'' \<in> set s),
       date_iso = (\<lambda>v. case v of JStr s \<Rightarrow> Inr (JDate s) | JDate s \<Rightarrow> Inr v
                          | _ \<Rightarrow> Inl ''must be in ISO 8601 date format''),
       number_positive = (\<lambda>v. case v of
                            JNum n \<Rightarrow> if 0 < n then Inr v else Inl ''must be a positive number''
                          | _ \<Rightarrow> Inl ''must be a number''),
       number_integer_min = (\<lambda>m v. case v of
                            JNum n \<Rightarrow> if of_int \<lfloor>n\<rfloor> = n \<and> of_nat m \<le> n then Inr v
                                      else Inl ''must be an integer not below the minimum''
                          | _ \<Rightarrow> Inl ''must be a number'') \<rparr>"

definition example_health_event :: object where
  "example_health_event =
     [(''id'', JStr ''123e4567-e89b-42d3-a456-426614174000''),
      (''type'', JStr ''HEALTH_CHECK''),
      (''timestamp'', JStr ''2024-01-01T00:00:00.000Z''),
      (''source'', JStr ''order-service''),
      (''data'', JObj [(''service'', JStr ''order-service''), (''status'', JStr ''UP''),
                       (''timestamp'', JStr ''2024-01-01T00:00:00.000Z'')])]"

section \<open>Order intake: the total and the orders that validation lets through\<close>













lemma createOrder_validation_error:
  "validateOrderData A orderData = Inl e \<Longrightarrow> createOrder A C orderData w = (Inl e, w)"
  by (simp add: createOrder_def)



text \<open>
  Claim C2. \<open>validateOrderData\<close> tests a quantity with
  \<open>!item.quantity || item.quantity <= 0\<close>. A quantity of \<open>0\<close> is rejected with
  \<open>Valid quantity is required\<close>, before \<open>save\<close> and the producer are reached. A quantity
  that is the string \<open>abc\<close>, or an empty object, is neither falsy nor \<open>\<le> 0\<close> (as a
  number it is \<open>NaN\<close>, and every comparison with \<open>NaN\<close> is false): the order passes the
  validation, \<open>save\<close> is called with an order whose total is \<open>NaN\<close>, and one event is
  sent.
\<close>

theorem createOrder_accepts_non_numeric_quantity:
  "createOrder exact_arith example_collaborators (example_order_with (VNumber 0)) empty_world
     = (Inl (ValidQuantityRequired 1), empty_world) \<and>
   validateOrderData exact_arith (example_order_with (VString ''abc'')) = Inr () \<and>
   map os_totalAmount (save_calls (snd (createOrder exact_arith example_collaborators
      (example_order_with (VString ''abc'')) empty_world))) = [NaN] \<and>
   length (send_calls (snd (createOrder exact_arith example_collaborators
      (example_order_with (VString ''abc'')) empty_world))) = 1 \<and>
   validateOrderData exact_arith (example_order_with (VObject [])) = Inr () \<and>
   map os_totalAmount (save_calls (snd (createOrder exact_arith example_collaborators
      (example_order_with (VObject [])) empty_world))) = [NaN] \<and>
   length (send_calls (snd (createOrder exact_arith example_collaborators
      (example_order_with (VObject [])) empty_world))) = 1"
  by (simp add: createOrder_def validateOrderData_def calculateTotal_def item_amount_def
      js_times_def falsy_or_le_zero_def js_le_zero_def exact_arith_def digit_of_def
      example_order_with_def example_properties_def example_collaborators_def empty_world_def
      publishOrderCreated_def publishEvent_def Let_def)

section \<open>The envelope that the Event Publisher sends\<close>

text \<open>
  Claim C7. \<open>publishOrderCreated\<close> hands one message to the producer, keyed by the
  order id. Its event has the keys \<open>type\<close>, \<open>timestamp\<close>, \<open>version\<close>, \<open>source\<close> and
  \<open>data\<close> and no \<open>id\<close>, whereas the envelope that \<open>EventBuilder.createOrderCreatedEvent\<close>
  builds has an \<open>id\<close>; the base schema requires \<open>id\<close>, so it rejects the published
  event whatever the other keys hold.
\<close>

theorem publishOrderCreated_envelope_without_id:
  "\<exists>m. send_calls (snd (publishOrderCreated C order w)) = send_calls w @ [m] \<and>
        km_key m = so_orderId C order \<and>
        env_id (km_value m) = None \<and>
        env_type (km_value m) = Some ''ORDER_CREATED'' \<and>
        env_timestamp (km_value m) = Some (now_iso C) \<and>
        env_version (km_value m) = Some ''1.0'' \<and>
        env_source (km_value m) = Some ''order-service'' \<and>
        env_data (km_value m) = Some (so_toEventData C order) \<and>
        env_id (createOrderCreatedEvent uuid now (so_toEventData C order) ''order-service'')
          = Some uuid"
proof -
  have "snd (publishEvent C ev k w) =
      w\<lparr> send_calls := send_calls w @
        [\<lparr> km_topic = topic, km_key = k, km_value = ev, km_timestamp = now_millis C,
           km_header_event_type = env_type ev, km_header_event_version = env_version ev,
           km_header_source_service = env_source ev \<rparr>] \<rparr>" for ev k
    by (cases "producer_send C \<lparr> km_topic = topic, km_key = k, km_value = ev,
           km_timestamp = now_millis C,
           km_header_event_type = env_type ev, km_header_event_version = env_version ev,
           km_header_source_service = env_source ev \<rparr>")
       (simp_all add: publishEvent_def Let_def split: list.splits)
  then show ?thesis
    by (simp add: publishOrderCreated_def orderCreatedEvent_def createOrderCreatedEvent_def)
qed

text \<open>The message that the example order produces.\<close>

theorem publishOrderCreated_envelope_without_id_witness:
  "map (\<lambda>m. env_id (km_value m))
     (send_calls (snd (createOrder exact_arith example_collaborators example_order empty_world)))
     = [None]"
proof -
  have eq: "send_calls (snd (createOrder exact_arith example_collaborators example_order empty_world))
      = send_calls (snd (publishOrderCreated example_collaborators example_saved_order
          (empty_world\<lparr> save_calls := [example_saved_order] \<rparr>)))"
    by (simp add: createOrder_def validateOrderData_def calculateTotal_def item_amount_def
        js_times_def falsy_or_le_zero_def js_le_zero_def exact_arith_def
        example_order_def example_order_with_def example_properties_def
        example_saved_order_def example_collaborators_def empty_world_def
        publishOrderCreated_def publishEvent_def Let_def)
  from publishOrderCreated_envelope_without_id
    [of example_collaborators example_saved_order
      "empty_world\<lparr> save_calls := [example_saved_order] \<rparr>"
      "''00000000-0000-4000-8000-000000000000''" "''2024-01-01T00:00:00.000Z''"]
  show ?thesis
  proof (elim exE conjE)
    fix m
    assume "send_calls (snd (publishOrderCreated example_collaborators example_saved_order
          (empty_world\<lparr> save_calls := [example_saved_order] \<rparr>)))
        = send_calls (empty_world\<lparr> save_calls := [example_saved_order] \<rparr>) @ [m]"
      and "env_id (km_value m) = None"
    with eq show ?thesis
      by (simp add: empty_world_def)
  qed
qed

section \<open>The Event Handler: deduplication\<close>

lemma handleOrderCreated_processedEvents:
  "handleOrderCreated orch e s = (r, s') \<Longrightarrow> processedEvents s' = processedEvents s"
  by (auto simp: handleOrderCreated_def say_def Let_def split: option.splits prod.splits sum.splits)

lemma handleOrderCreated_calls:
  "handleOrderCreated orch e s = (r, s') \<Longrightarrow> ev_data e = Some d \<Longrightarrow>
     orchestrator_calls s' = orchestrator_calls s @ [d]"
  by (auto simp: handleOrderCreated_def say_def Let_def split: option.splits prod.splits sum.splits)

lemma handle_duplicate:
  "isValidEvent e \<Longrightarrow> generateEventId now e \<in> set (processedEvents s) \<Longrightarrow>
     handle orch now e s = (Inr (), say (LogDuplicateIgnored (ev_type e) (generateEventId now e)) s)"
  by (simp add: handle_def)

lemma handle_other_type:
  "isValidEvent e \<Longrightarrow> generateEventId now e \<notin> set (processedEvents s) \<Longrightarrow>
   ev_type e \<noteq> Some ''ORDER_CREATED'' \<Longrightarrow>
     handle orch now e s =
       (Inr (), say (LogIgnoringType (ev_type e))
                  (say (LogProcessingEvent (ev_type e)
                          (case ev_data e of None \<Rightarrow> None | Some d \<Rightarrow> ed_orderId d)) s))"
  by (simp add: handle_def Let_def)

lemma handle_cases:
  "handle orch now e s = (r, s') \<Longrightarrow>
     processedEvents s' = processedEvents s \<or>
     (isValidEvent e \<and> ev_type e = Some ''ORDER_CREATED'' \<and>
      generateEventId now e \<notin> set (processedEvents s) \<and> r = Inr () \<and>
      processedEvents s' =
        (if length (processedEvents s) + 1 > 1000
         then slice_last 500 (processedEvents s @ [generateEventId now e])
         else processedEvents s @ [generateEventId now e]))"
  apply (simp add: handle_def Let_def say_def set_add_def split: if_splits prod.splits sum.splits)
  apply (auto dest: handleOrderCreated_processedEvents)
  done

lemma handle_created_ok:
  assumes "isValidEvent e" "ev_type e = Some ''ORDER_CREATED''"
    "generateEventId now e \<notin> set (processedEvents s)"
    "handle orch now e s = (Inr (), s')"
  shows "processedEvents s' =
        (if length (processedEvents s) + 1 > 1000
         then slice_last 500 (processedEvents s @ [generateEventId now e])
         else processedEvents s @ [generateEventId now e])"
  using assms
  apply (simp add: handle_def Let_def say_def set_add_def split: if_splits prod.splits sum.splits)
  apply (auto dest: handleOrderCreated_processedEvents)
  done

lemma handle_created_calls:
  assumes "isValidEvent e" "ev_type e = Some ''ORDER_CREATED''"
    "generateEventId now e \<notin> set (processedEvents s)"
    "handle orch now e s = (r, s')"
  shows "\<exists>d. ev_data e = Some d \<and> orchestrator_calls s' = orchestrator_calls s @ [d]"
proof -
  from assms(1) obtain d where d: "ev_data e = Some d"
    by (auto simp: isValidEvent_def)
  obtain r1 s1 where h: "handleOrderCreated orch e
      (say (LogProcessingEvent (ev_type e) (ed_orderId d)) s) = (r1, s1)"
    by (cases "handleOrderCreated orch e (say (LogProcessingEvent (ev_type e) (ed_orderId d)) s)")
  from handleOrderCreated_calls [OF h d]
  have "orchestrator_calls s1 = orchestrator_calls s @ [d]" by (simp add: say_def)
  with assms h d show ?thesis
    by (cases r1) (auto simp: handle_def Let_def say_def split: if_splits)
qed

lemma handle_ok_recorded:
  assumes "isValidEvent e" "ev_type e = Some ''ORDER_CREATED''" "handle orch now e s = (Inr (), s')"
  shows "generateEventId now e \<in> set (processedEvents s')"
proof (cases "generateEventId now e \<in> set (processedEvents s)")
  case True
  with handle_duplicate [OF assms(1) True, of orch] assms(3) show ?thesis
    by (auto simp: say_def)
next
  case False
  from handle_created_ok [OF assms(1,2) False assms(3)] show ?thesis
    by (simp add: slice_last_def)
qed

lemma handle_length:
  assumes "length (processedEvents s) \<le> 1000"
  shows "length (processedEvents (snd (handle orch now e s))) \<le> 1000"
proof -
  obtain r s' where h: "handle orch now e s = (r, s')" by (cases "handle orch now e s")
  from handle_cases [OF h] assms show ?thesis
    using h by (auto simp: slice_last_def split: if_splits)
qed

lemma handle_all_length:
  "length (processedEvents s) \<le> 1000 \<Longrightarrow>
     length (processedEvents (handle_all orch now events s)) \<le> 1000"
  by (induction events arbitrary: s) (simp_all add: handle_length)

lemma sendOrderConfirmation_returns:
  "\<exists>r ns'. sendOrderConfirmation ch now d ns = (Inr r, ns')"
  by (simp add: sendOrderConfirmation_def Let_def)

lemma example_handle_ok:
  "generateEventId now example_event \<notin> set (processedEvents s) \<Longrightarrow>
   fst (handle (sendOrderConfirmation ch t) now example_event s) = Inr ()"
  by (simp add: handle_def handleOrderCreated_def sendOrderConfirmation_def example_event_def
        isValidEvent_def say_def Let_def)


text \<open>
  The clock is read only for an event without a timestamp, and such an event is not
  valid: the clock argument of \<open>handle\<close> has no influence on what it does.
\<close>

lemma generateEventId_valid:
  "isValidEvent e \<Longrightarrow> generateEventId now e = generateEventId now' e"
  by (cases "ev_timestamp e") (auto simp: isValidEvent_def generateEventId_def)

lemma handle_clock:
  "handle orch now e s = handle orch now' e s"
proof (cases "isValidEvent e")
  case True
  from generateEventId_valid [OF True, of now now'] show ?thesis
    by (simp add: handle_def)
next
  case False
  then show ?thesis by (simp add: handle_def)
qed

text \<open>
  An identity among the newest \<open>n\<close> of the set is among the newest \<open>n + 1\<close> after one
  more \<open>ORDER_CREATED\<close> event, trimmed or not, as long as \<open>n + 1\<close> is at most 500.
\<close>

lemma handle_all_append:
  "handle_all orch now (xs @ ys) s = handle_all orch now ys (handle_all orch now xs s)"
  by (induction xs arbitrary: s) simp_all

lemma slice_last_snoc:
  "x \<in> set (slice_last n xs) \<Longrightarrow> x \<in> set (slice_last (Suc n) (xs @ [y]))"
  by (simp add: slice_last_def)

lemma slice_last_slice_last:
  assumes "m \<le> 500"
  shows "slice_last m (slice_last 500 xs) = slice_last m xs"
proof -
  from assms
  have "length xs - (length xs - 500 + m) + (length xs - 500) = length xs - m"
    by arith
  then show ?thesis
    by (simp add: slice_last_def)
qed

lemma slice_last_mono:
  "n \<le> m \<Longrightarrow> set (slice_last n xs) \<subseteq> set (slice_last m xs)"
  unfolding slice_last_def by (rule set_drop_subset_set_drop) arith

lemma slice_last_subset: "set (slice_last n xs) \<subseteq> set xs"
  unfolding slice_last_def by (rule set_drop_subset)

text \<open>One delivery moves an identity at most one place away from the newest end.\<close>

lemma handle_keeps_recent:
  assumes "x \<in> set (slice_last n (processedEvents s))"
    and "handle orch now e s = (r, s')"
    and "n < 500"
  shows "x \<in> set (slice_last (if ev_type e = Some ''ORDER_CREATED'' then Suc n else n)
                     (processedEvents s'))"
proof -
  from handle_cases [OF assms(2)]
  show ?thesis
  proof
    assume same: "processedEvents s' = processedEvents s"
    have "set (slice_last n (processedEvents s)) \<subseteq> set (slice_last (Suc n) (processedEvents s))"
      by (rule slice_last_mono) simp
    with assms(1) same show ?thesis by auto
  next
    assume c: "isValidEvent e \<and> ev_type e = Some ''ORDER_CREATED'' \<and>
      generateEventId now e \<notin> set (processedEvents s) \<and> r = Inr () \<and>
      processedEvents s' =
        (if length (processedEvents s) + 1 > 1000
         then slice_last 500 (processedEvents s @ [generateEventId now e])
         else processedEvents s @ [generateEventId now e])"
    from assms(1) have i: "x \<in> set (slice_last (Suc n)
        (processedEvents s @ [generateEventId now e]))"
      by (rule slice_last_snoc)
    from assms(3) have "Suc n \<le> 500" by simp
    with i have "x \<in> set (slice_last (Suc n)
        (slice_last 500 (processedEvents s @ [generateEventId now e])))"
      by (simp add: slice_last_slice_last)
    with i c show ?thesis by simp
  qed
qed

lemma handle_all_keeps_recent:
  "x \<in> set (slice_last n (processedEvents s)) \<Longrightarrow> n + created_count events \<le> 500 \<Longrightarrow>
     x \<in> set (slice_last (n + created_count events)
                 (processedEvents (handle_all orch now events s)))"
proof (induction events arbitrary: n s)
  case Nil
  then show ?case by (simp add: created_count_def)
next
  case (Cons e events)
  obtain r s' where h: "handle orch now e s = (r, s')" by (cases "handle orch now e s")
  show ?case
  proof (cases "ev_type e = Some ''ORDER_CREATED''")
    case True
    with Cons.prems(2) have n: "n < 500" and b: "Suc n + created_count events \<le> 500"
      by (simp_all add: created_count_def)
    from handle_keeps_recent [OF Cons.prems(1) h n] True
    have "x \<in> set (slice_last (Suc n) (processedEvents s'))" by simp
    from Cons.IH [OF this b] h True show ?thesis
      by (simp add: created_count_def)
  next
    case False
    with Cons.prems(2) have b: "n + created_count events \<le> 500"
      by (simp add: created_count_def)
    from handle_cases [OF h] False have "processedEvents s' = processedEvents s" by auto
    with Cons.prems(1) have "x \<in> set (slice_last n (processedEvents s'))" by simp
    from Cons.IH [OF this b] h False show ?thesis
      by (simp add: created_count_def)
  qed
qed

lemma handle_ok_newest:
  assumes "isValidEvent e" "ev_type e = Some ''ORDER_CREATED''"
    "generateEventId now e \<notin> set (processedEvents s)"
    "handle orch now e s = (Inr (), s')"
  shows "generateEventId now e \<in> set (slice_last 1 (processedEvents s'))"
  using handle_created_ok [OF assms] by (simp add: slice_last_def)

lemma handle_sendOrderConfirmation_ok:
  "fst (handle (sendOrderConfirmation ch t) now e s) = Inr ()"
  by (cases "ev_data e")
     (simp_all add: handle_def handleOrderCreated_def sendOrderConfirmation_def
        isValidEvent_def say_def Let_def)

lemma numbered_event_valid:
  "isValidEvent (numbered_event n)" "ev_type (numbered_event n) = Some ''ORDER_CREATED''"
  "ev_data (numbered_event n) = Some (numbered_data n)"
  by (simp_all add: isValidEvent_def numbered_event_def)

lemma numbered_event_id_inj:
  "generateEventId now (numbered_event n) = generateEventId now' (numbered_event m) \<longleftrightarrow> n = m"
  by (simp add: generateEventId_def numbered_event_def numbered_data_def)

lemma numbered_event_id_other:
  "generateEventId now (numbered_event n) \<noteq> generateEventId now' example_event"
  by (simp add: generateEventId_def numbered_event_def numbered_data_def example_event_def)

lemma handle_numbered:
  assumes "generateEventId now (numbered_event n) \<notin> set (processedEvents s)"
  shows "processedEvents (snd (handle (sendOrderConfirmation ch t) now (numbered_event n) s)) =
        (if length (processedEvents s) + 1 > 1000
         then slice_last 500 (processedEvents s @ [generateEventId now (numbered_event n)])
         else processedEvents s @ [generateEventId now (numbered_event n)])"
    and "orchestrator_calls (snd (handle (sendOrderConfirmation ch t) now (numbered_event n) s)) =
        orchestrator_calls s @ [numbered_data n]"
proof -
  let ?h = "handle (sendOrderConfirmation ch t) now (numbered_event n) s"
  have "fst ?h = Inr ()" by (rule handle_sendOrderConfirmation_ok)
  then have h: "?h = (Inr (), snd ?h)" by (metis prod.collapse)
  from handle_created_ok [OF numbered_event_valid(1,2) assms h]
  show "processedEvents (snd ?h) =
        (if length (processedEvents s) + 1 > 1000
         then slice_last 500 (processedEvents s @ [generateEventId now (numbered_event n)])
         else processedEvents s @ [generateEventId now (numbered_event n)])" .
  from handle_created_calls [OF numbered_event_valid(1,2) assms h]
  show "orchestrator_calls (snd ?h) = orchestrator_calls s @ [numbered_data n]"
    by (simp add: numbered_event_valid(3))
qed

lemma handle_all_numbered:
  assumes "length (processedEvents s) + k \<le> 1000"
    and "\<forall>n<k. generateEventId now (numbered_event n) \<notin> set (processedEvents s)"
  shows "processedEvents (handle_all (sendOrderConfirmation ch t) now
            (map numbered_event [0..<k]) s)
          = processedEvents s @ map (\<lambda>n. generateEventId now (numbered_event n)) [0..<k]
       \<and> orchestrator_calls (handle_all (sendOrderConfirmation ch t) now
            (map numbered_event [0..<k]) s)
          = orchestrator_calls s @ map numbered_data [0..<k]"
  using assms
proof (induction k)
  case 0
  then show ?case by simp
next
  case (Suc k)
  let ?s = "handle_all (sendOrderConfirmation ch t) now (map numbered_event [0..<k]) s"
  from Suc.prems have "length (processedEvents s) + k \<le> 1000"
    and "\<forall>n<k. generateEventId now (numbered_event n) \<notin> set (processedEvents s)"
    by simp_all
  from Suc.IH [OF this]
  have pe: "processedEvents ?s
      = processedEvents s @ map (\<lambda>n. generateEventId now (numbered_event n)) [0..<k]"
    and oc: "orchestrator_calls ?s = orchestrator_calls s @ map numbered_data [0..<k]"
    by simp_all
  from Suc.prems(2) have "generateEventId now (numbered_event k) \<notin> set (processedEvents s)"
    by simp
  then have fresh: "generateEventId now (numbered_event k) \<notin> set (processedEvents ?s)"
    by (auto simp: pe numbered_event_id_inj)
  from Suc.prems(1) have len: "\<not> length (processedEvents ?s) + 1 > 1000"
    by (simp add: pe)
  have step: "handle_all (sendOrderConfirmation ch t) now (map numbered_event [0..<Suc k]) s
      = snd (handle (sendOrderConfirmation ch t) now (numbered_event k) ?s)"
    by (simp add: handle_all_append)
  from handle_numbered [OF fresh, of ch t] len pe oc show ?case
    unfolding step by simp
qed

lemma example_event_valid:
  "isValidEvent example_event" "ev_type example_event = Some ''ORDER_CREATED''"
  "ev_data example_event = Some \<lparr> ed_orderId = Some ''o1'', ed_customerEmail = Some ''a@b.com'' \<rparr>"
  by (simp_all add: isValidEvent_def example_event_def)

lemma handle_example_event:
  assumes "generateEventId now example_event \<notin> set (processedEvents s)"
  shows "handle (sendOrderConfirmation ch t) now example_event s
       = (Inr (), snd (handle (sendOrderConfirmation ch t) now example_event s))"
    and "orchestrator_calls (snd (handle (sendOrderConfirmation ch t) now example_event s)) =
        orchestrator_calls s @ [\<lparr> ed_orderId = Some ''o1'', ed_customerEmail = Some ''a@b.com'' \<rparr>]"
    and "length (processedEvents s) < 1000 \<Longrightarrow>
        processedEvents (snd (handle (sendOrderConfirmation ch t) now example_event s)) =
        processedEvents s @ [generateEventId now example_event]"
proof -
  let ?h = "handle (sendOrderConfirmation ch t) now example_event s"
  have "fst ?h = Inr ()" by (rule handle_sendOrderConfirmation_ok)
  then show h: "?h = (Inr (), snd ?h)" by (metis prod.collapse)
  from handle_created_calls [OF example_event_valid(1,2) assms h]
  show "orchestrator_calls (snd ?h) =
        orchestrator_calls s @ [\<lparr> ed_orderId = Some ''o1'', ed_customerEmail = Some ''a@b.com'' \<rparr>]"
    by (simp add: example_event_valid(3))
  assume "length (processedEvents s) < 1000"
  with handle_created_ok [OF example_event_valid(1,2) assms h]
  show "processedEvents (snd ?h) = processedEvents s @ [generateEventId now example_event]"
    by simp
qed

lemma handled_once_state:
  "processedEvents handled_once = [generateEventId ''0'' example_event]"
  "orchestrator_calls handled_once =
     [\<lparr> ed_orderId = Some ''o1'', ed_customerEmail = Some ''a@b.com'' \<rparr>]"
proof -
  have n: "generateEventId ''0'' example_event
      \<notin> set (processedEvents (initial_state example_service))"
    by (simp add: initial_state_def)
  from handle_example_event(3) [OF n, of example_channels "''t''"]
  show "processedEvents handled_once = [generateEventId ''0'' example_event]"
    by (simp add: handled_once_def initial_state_def)
  from handle_example_event(2) [OF n, of example_channels "''t''"]
  show "orchestrator_calls handled_once =
     [\<lparr> ed_orderId = Some ''o1'', ed_customerEmail = Some ''a@b.com'' \<rparr>]"
    by (simp add: handled_once_def initial_state_def)
qed

lemma handled_newer_state:
  "processedEvents handled_newer =
     drop 500 (map (\<lambda>n. generateEventId ''0'' (numbered_event n)) [0..<1000])"
  "orchestrator_calls handled_newer =
     \<lparr> ed_orderId = Some ''o1'', ed_customerEmail = Some ''a@b.com'' \<rparr>
       # map numbered_data [0..<1000]"
proof -
  let ?orch = "sendOrderConfirmation example_channels ''t''"
  let ?s = "handle_all ?orch ''0'' (map numbered_event [0..<999]) handled_once"
  let ?id = "\<lambda>n. generateEventId ''0'' (numbered_event n)"
  have "length (processedEvents handled_once) + 999 \<le> 1000"
    by (simp add: handled_once_state)
  moreover have "\<forall>n<999. ?id n \<notin> set (processedEvents handled_once)"
    by (simp add: handled_once_state numbered_event_id_other)
  ultimately have
    "processedEvents ?s = processedEvents handled_once @ map ?id [0..<999]
     \<and> orchestrator_calls ?s = orchestrator_calls handled_once @ map numbered_data [0..<999]"
    by (rule handle_all_numbered)
  then have pe: "processedEvents ?s = generateEventId ''0'' example_event # map ?id [0..<999]"
    and oc: "orchestrator_calls ?s =
       \<lparr> ed_orderId = Some ''o1'', ed_customerEmail = Some ''a@b.com'' \<rparr>
         # map numbered_data [0..<999]"
    by (simp_all add: handled_once_state)
  have fresh: "?id 999 \<notin> set (processedEvents ?s)"
    by (auto simp: pe numbered_event_id_inj numbered_event_id_other)
  have up: "[0..<1000] = [0..<999] @ [999]"
    using upt_Suc_append [of 0 999] by simp
  have step: "handled_newer = snd (handle ?orch ''0'' (numbered_event 999) ?s)"
    unfolding handled_newer_def newer_events_def up
    by (simp add: handle_all_append)
  have ids: "map ?id [0..<1000] = map ?id [0..<999] @ [?id 999]"
    unfolding up by simp
  have datas: "map numbered_data [0..<1000] = map numbered_data [0..<999] @ [numbered_data 999]"
    unfolding up by simp
  have len: "length (processedEvents ?s) + 1 > 1000"
    by (simp add: pe)
  from handle_numbered(1) [OF fresh, of example_channels "''t''"] len
  have "processedEvents handled_newer =
      slice_last 500 (processedEvents ?s @ [?id 999])"
    unfolding step by simp
  also have "processedEvents ?s @ [?id 999] =
      generateEventId ''0'' example_event # map ?id [0..<1000]"
    unfolding ids pe by simp
  also have "slice_last 500 (generateEventId ''0'' example_event # map ?id [0..<1000])
      = drop 500 (map ?id [0..<1000])"
    unfolding slice_last_def by simp
  finally show "processedEvents handled_newer = drop 500 (map ?id [0..<1000])" .
  from handle_numbered(2) [OF fresh, of example_channels "''t''"]
  show "orchestrator_calls handled_newer =
     \<lparr> ed_orderId = Some ''o1'', ed_customerEmail = Some ''a@b.com'' \<rparr>
       # map numbered_data [0..<1000]"
    unfolding step datas oc by simp
qed

text \<open>
  Claim C3. Let \<open>E\<close> be a structurally valid \<open>ORDER_CREATED\<close> event that the handler
  has not seen and handles without an error, so that the notification service is
  called once, with the payload of \<open>E\<close>. Let any sequence of events be handled next, of
  which fewer than 500 are \<open>ORDER_CREATED\<close> events. A delivery \<open>E'\<close> with the same
  type, order id and timestamp as \<open>E\<close>, handled after them, returns normally, is logged
  as a duplicate, and leaves the calls on the notification service and the state of
  the service as they were; when it is handled right after \<open>E\<close>, the notification
  service has been called once across both deliveries.
\<close>

theorem handle_idempotent_within_window:
  assumes "isValidEvent E" and "ev_type E = Some ''ORDER_CREATED''"
    and "generateEventId now E \<notin> set (processedEvents s)"
    and "handle orch now E s = (Inr (), s1)"
    and "created_count events < 500"
    and "s2 = handle_all orch now'' events s1"
    and "isValidEvent E'" and "ev_type E' = ev_type E" and "ev_timestamp E' = ev_timestamp E"
    and "map_option ed_orderId (ev_data E') = map_option ed_orderId (ev_data E)"
  shows "\<exists>d. ev_data E = Some d \<and>
           orchestrator_calls s1 = orchestrator_calls s @ [d] \<and>
           handle orch now' E' s2 =
             (Inr (), say (LogDuplicateIgnored (ev_type E') (generateEventId now E)) s2) \<and>
           orchestrator_calls (snd (handle orch now' E' s2)) = orchestrator_calls s2 \<and>
           service (snd (handle orch now' E' s2)) = service s2 \<and>
           (events = [] \<longrightarrow>
              orchestrator_calls (snd (handle orch now' E' s2)) = orchestrator_calls s @ [d])"
proof -
  from handle_created_calls [OF assms(1-4)] obtain d where d: "ev_data E = Some d"
    and calls: "orchestrator_calls s1 = orchestrator_calls s @ [d]"
    by (elim exE conjE)
  from assms(7,10) d obtain d' where d': "ev_data E' = Some d'" "ed_orderId d' = ed_orderId d"
    by (auto simp: isValidEvent_def)
  from assms(1) obtain ts where ts: "ev_timestamp E = Some ts" "ts \<noteq> []"
    by (cases "ev_timestamp E") (auto simp: isValidEvent_def)
  have same: "generateEventId now' E' = generateEventId now E"
    using d d' ts assms(8,9) by (simp add: generateEventId_def)
  from assms(5) have b: "1 + created_count events \<le> 500" by simp
  from handle_all_keeps_recent [OF handle_ok_newest [OF assms(1-4)] b, of orch now'']
  have "generateEventId now E \<in> set (slice_last (1 + created_count events) (processedEvents s2))"
    by (simp add: assms(6))
  with slice_last_subset have "generateEventId now E \<in> set (processedEvents s2)"
    by (rule subsetD)
  with same have seen: "generateEventId now' E' \<in> set (processedEvents s2)" by simp
  from handle_duplicate [OF assms(7) seen, of orch] same
  have dup: "handle orch now' E' s2 =
      (Inr (), say (LogDuplicateIgnored (ev_type E') (generateEventId now E)) s2)"
    by simp
  then have unchanged: "orchestrator_calls (snd (handle orch now' E' s2)) = orchestrator_calls s2"
      "service (snd (handle orch now' E' s2)) = service s2"
    by (simp_all add: say_def)
  have "events = [] \<longrightarrow>
      orchestrator_calls (snd (handle orch now' E' s2)) = orchestrator_calls s @ [d]"
  proof
    assume "events = []"
    then have "s2 = s1" by (simp add: assms(6))
    with unchanged(1) calls
    show "orchestrator_calls (snd (handle orch now' E' s2)) = orchestrator_calls s @ [d]"
      by simp
  qed
  with d calls dup unchanged show ?thesis by simp
qed

text \<open>
  The example event, then an \<open>ORDER_CANCELLED\<close> event and another order, then the
  example event again: the notification service is called for the two orders, once
  each.
\<close>

theorem handle_idempotent_within_window_witness:
  "created_count [example_other_event, numbered_event 0] < 500 \<and>
   orchestrator_calls handled_once =
     [\<lparr> ed_orderId = Some ''o1'', ed_customerEmail = Some ''a@b.com'' \<rparr>] \<and>
   orchestrator_calls
     (snd (handle (sendOrderConfirmation example_channels ''t'') ''2'' example_event
        (handle_all (sendOrderConfirmation example_channels ''t'') ''1''
           [example_other_event, numbered_event 0] handled_once))) =
     [\<lparr> ed_orderId = Some ''o1'', ed_customerEmail = Some ''a@b.com'' \<rparr>, numbered_data 0]"
proof -
  let ?orch = "sendOrderConfirmation example_channels ''t''"
  let ?s = "initial_state example_service"
  let ?events = "[example_other_event, numbered_event 0]"
  have n0: "generateEventId ''0'' example_event \<notin> set (processedEvents ?s)"
    by (simp add: initial_state_def)
  have first: "handle ?orch ''0'' example_event ?s = (Inr (), handled_once)"
    using handle_example_event(1) [OF n0, of example_channels "''t''"]
    by (simp add: handled_once_def)
  have c: "created_count ?events < 500"
    by (simp add: created_count_def example_other_event_def numbered_event_def)
  have between: "orchestrator_calls (handle_all ?orch ''1'' ?events handled_once) =
      [\<lparr> ed_orderId = Some ''o1'', ed_customerEmail = Some ''a@b.com'' \<rparr>, numbered_data 0]"
  proof -
    have o: "snd (handle ?orch ''1'' example_other_event handled_once)
        = say (LogIgnoringType (Some ''ORDER_CANCELLED''))
            (say (LogProcessingEvent (Some ''ORDER_CANCELLED'') (Some ''o1'')) handled_once)"
      by (simp add: handle_def Let_def isValidEvent_def example_other_event_def
          generateEventId_def handled_once_state(1) example_event_def)
    have f: "generateEventId ''1'' (numbered_event 0) \<notin> set (processedEvents
        (snd (handle ?orch ''1'' example_other_event handled_once)))"
      unfolding o by (simp add: say_def handled_once_state(1) numbered_event_id_other)
    from handle_numbered(2) [OF f, of example_channels "''t''"]
    show ?thesis
      by (simp add: o say_def handled_once_state(2))
  qed
  from handle_idempotent_within_window
    [where now' = "''2''" and now'' = "''1''",
     OF example_event_valid(1,2) n0 first c refl example_event_valid(1) refl refl refl]
  have "orchestrator_calls (snd (handle ?orch ''2'' example_event
          (handle_all ?orch ''1'' ?events handled_once)))
        = orchestrator_calls (handle_all ?orch ''1'' ?events handled_once)"
    by (elim exE conjE)
  with between c handled_once_state(2) show ?thesis by simp
qed

text \<open>
  The set of identities is a window: \<open>handle\<close> keeps the newest 500 as soon as there
  are more than 1000. The example event, then 1000 other orders, then the example event
  again: its identity has left the set, and the notification service is called with
  its payload a second time.
\<close>

theorem handle_after_eviction_counterexample:
  "isValidEvent example_event \<and> ev_type example_event = Some ''ORDER_CREATED'' \<and>
   handle (sendOrderConfirmation example_channels ''t'') ''0'' example_event
       (initial_state example_service) = (Inr (), handled_once) \<and>
   orchestrator_calls handled_once =
     [\<lparr> ed_orderId = Some ''o1'', ed_customerEmail = Some ''a@b.com'' \<rparr>] \<and>
   orchestrator_calls handled_newer =
     \<lparr> ed_orderId = Some ''o1'', ed_customerEmail = Some ''a@b.com'' \<rparr>
       # map numbered_data [0..<1000] \<and>
   fst (handle (sendOrderConfirmation example_channels ''t'') ''0'' example_event handled_newer)
     = Inr () \<and>
   orchestrator_calls
     (snd (handle (sendOrderConfirmation example_channels ''t'') ''0'' example_event
             handled_newer)) =
     \<lparr> ed_orderId = Some ''o1'', ed_customerEmail = Some ''a@b.com'' \<rparr>
       # map numbered_data [0..<1000]
       @ [\<lparr> ed_orderId = Some ''o1'', ed_customerEmail = Some ''a@b.com'' \<rparr>]"
proof -
  have n0: "generateEventId ''0'' example_event
      \<notin> set (processedEvents (initial_state example_service))"
    by (simp add: initial_state_def)
  have first: "handle (sendOrderConfirmation example_channels ''t'') ''0'' example_event
       (initial_state example_service) = (Inr (), handled_once)"
    using handle_example_event(1) [OF n0, of example_channels "''t''"]
    by (simp add: handled_once_def)
  have n1: "generateEventId ''0'' example_event \<notin> set (processedEvents handled_newer)"
  proof
    assume "generateEventId ''0'' example_event \<in> set (processedEvents handled_newer)"
    then have "generateEventId ''0'' example_event
        \<in> set (map (\<lambda>n. generateEventId ''0'' (numbered_event n)) [0..<1000])"
      unfolding handled_newer_state(1) by (rule in_set_dropD)
    then obtain n where "generateEventId ''0'' (numbered_event n) = generateEventId ''0'' example_event"
      unfolding set_map by (elim imageE) simp
    with numbered_event_id_other [of "''0''" n "''0''"] show False by simp
  qed
  have again: "orchestrator_calls
     (snd (handle (sendOrderConfirmation example_channels ''t'') ''0'' example_event
             handled_newer)) =
     \<lparr> ed_orderId = Some ''o1'', ed_customerEmail = Some ''a@b.com'' \<rparr>
       # map numbered_data [0..<1000]
       @ [\<lparr> ed_orderId = Some ''o1'', ed_customerEmail = Some ''a@b.com'' \<rparr>]"
    using handle_example_event(2) [OF n1, of example_channels "''t''"]
    by (simp add: handled_newer_state(2))
  have ok: "fst (handle (sendOrderConfirmation example_channels ''t'') ''0'' example_event
      handled_newer) = Inr ()"
    by (rule handle_sendOrderConfirmation_ok)
  from example_event_valid(1,2) first handled_once_state(2) handled_newer_state(2) ok again
  show ?thesis by (intro conjI)
qed

text \<open>
  Claim C5. From the initial state, after any sequence of \<open>handle\<close> calls, the set of
  processed identities has at most 1000 members; every call keeps the bound. When a
  new identity is recorded in a set of 1000, which takes it over the cap, the set
  afterwards is the 499 most recently inserted of the old identities followed by the
  new one: the 500 most recent, the older 501 being dropped.
\<close>

theorem processedEvents_capped:
  "length (processedEvents (handle_all orch now events (initial_state ns))) \<le> 1000 \<and>
   (length (processedEvents s) \<le> 1000 \<longrightarrow>
      length (processedEvents (snd (handle orch now e s))) \<le> 1000) \<and>
   (length (processedEvents s) = 1000 \<and> isValidEvent e \<and> ev_type e = Some ''ORDER_CREATED'' \<and>
    generateEventId now e \<notin> set (processedEvents s) \<and> fst (handle orch now e s) = Inr () \<longrightarrow>
      processedEvents (snd (handle orch now e s)) =
        drop 501 (processedEvents s) @ [generateEventId now e])"
proof (intro conjI impI)
  show "length (processedEvents (handle_all orch now events (initial_state ns))) \<le> 1000"
    by (rule handle_all_length) (simp add: initial_state_def)
next
  assume "length (processedEvents s) \<le> 1000"
  then show "length (processedEvents (snd (handle orch now e s))) \<le> 1000"
    by (rule handle_length)
next
  assume a: "length (processedEvents s) = 1000 \<and> isValidEvent e \<and>
    ev_type e = Some ''ORDER_CREATED'' \<and>
    generateEventId now e \<notin> set (processedEvents s) \<and> fst (handle orch now e s) = Inr ()"
  then have h: "handle orch now e s = (Inr (), snd (handle orch now e s))"
    by (metis prod.collapse)
  from a handle_created_ok [OF _ _ _ h]
  show "processedEvents (snd (handle orch now e s)) =
        drop 501 (processedEvents s) @ [generateEventId now e]"
    by (simp add: slice_last_def)
qed

text \<open>A set of 1000 identities and one more event: 500 identities remain.\<close>

theorem processedEvents_capped_witness:
  "length (processedEvents example_full_state) = 1000 \<and>
   processedEvents (snd (handle (sendOrderConfirmation example_channels ''t'') ''0''
       example_event example_full_state))
     = drop 501 example_ids @ [''ORDER_CREATED-o1-2024-01-01T00:00:00.000Z''] \<and>
   length (processedEvents (snd (handle (sendOrderConfirmation example_channels ''t'') ''0''
       example_event example_full_state))) = 500"
proof -
  let ?orch = "sendOrderConfirmation example_channels ''t''"
  have len: "length (processedEvents example_full_state) = 1000"
    by (simp add: example_full_state_def example_ids_def)
  have id: "generateEventId ''0'' example_event = ''ORDER_CREATED-o1-2024-01-01T00:00:00.000Z''"
    by (simp add: generateEventId_def example_event_def)
  have fresh: "generateEventId ''0'' example_event \<notin> set (processedEvents example_full_state)"
    unfolding id by (auto simp: example_full_state_def example_ids_def)
  have v: "isValidEvent example_event" "ev_type example_event = Some ''ORDER_CREATED''"
    by (simp_all add: isValidEvent_def example_event_def)
  have ok: "fst (handle ?orch ''0'' example_event example_full_state) = Inr ()"
    using fresh by (rule example_handle_ok)
  from processedEvents_capped [of ?orch "''0''" "[]" example_service example_full_state example_event]
    len fresh v ok
  have "processedEvents (snd (handle ?orch ''0'' example_event example_full_state)) =
        drop 501 (processedEvents example_full_state) @ [generateEventId ''0'' example_event]"
    by blast
  then show ?thesis using len id
    by (simp add: example_full_state_def example_ids_def)
qed

text \<open>
  Claim C9. For a structurally valid event whose type is not \<open>ORDER_CREATED\<close>,
  \<open>handle\<close> returns normally and leaves the set of processed identities, the calls on
  the notification service and the state of the service as they were. If the
  identity of the event was not in the set, it is not in it afterwards either, the
  console gets the two lines of an ignored event, and a second delivery gets the
  same two lines again.
\<close>

theorem handle_ignores_other_types:
  assumes "isValidEvent e" and "ev_type e \<noteq> Some ''ORDER_CREATED''"
  shows "fst (handle orch now e s) = Inr () \<and>
         processedEvents (snd (handle orch now e s)) = processedEvents s \<and>
         orchestrator_calls (snd (handle orch now e s)) = orchestrator_calls s \<and>
         service (snd (handle orch now e s)) = service s \<and>
         (generateEventId now e \<notin> set (processedEvents s) \<longrightarrow>
            generateEventId now e \<notin> set (processedEvents (snd (handle orch now e s))) \<and>
            console (snd (handle orch now e s)) = console s @
              [LogProcessingEvent (ev_type e)
                 (case ev_data e of None \<Rightarrow> None | Some d \<Rightarrow> ed_orderId d),
               LogIgnoringType (ev_type e)] \<and>
            console (snd (handle orch now e (snd (handle orch now e s)))) =
              console (snd (handle orch now e s)) @
              [LogProcessingEvent (ev_type e)
                 (case ev_data e of None \<Rightarrow> None | Some d \<Rightarrow> ed_orderId d),
               LogIgnoringType (ev_type e)])"
proof (cases "generateEventId now e \<in> set (processedEvents s)")
  case True
  from handle_duplicate [OF assms(1) True, of orch] True show ?thesis
    by (simp add: say_def)
next
  case False
  let ?s1 = "snd (handle orch now e s)"
  have h: "handle orch now e s =
       (Inr (), say (LogIgnoringType (ev_type e))
                  (say (LogProcessingEvent (ev_type e)
                          (case ev_data e of None \<Rightarrow> None | Some d \<Rightarrow> ed_orderId d)) s))"
    by (rule handle_other_type [OF assms(1) False assms(2)])
  then have fresh: "generateEventId now e \<notin> set (processedEvents ?s1)"
    using False by (simp add: say_def)
  from handle_other_type [OF assms(1) fresh assms(2), of orch] h False
  show ?thesis by (simp add: say_def)
qed

text \<open>An \<open>ORDER_CANCELLED\<close> event delivered twice is logged twice and never recorded.\<close>

theorem handle_ignores_other_types_witness:
  "fst (handle failing_service ''0'' example_other_event (initial_state example_service)) = Inr () \<and>
   processedEvents (snd (handle failing_service ''0'' example_other_event
      (initial_state example_service))) = [] \<and>
   console (snd (handle failing_service ''0'' example_other_event
      (snd (handle failing_service ''0'' example_other_event (initial_state example_service))))) =
     [LogProcessingEvent (Some ''ORDER_CANCELLED'') (Some ''o1''),
      LogIgnoringType (Some ''ORDER_CANCELLED''),
      LogProcessingEvent (Some ''ORDER_CANCELLED'') (Some ''o1''),
      LogIgnoringType (Some ''ORDER_CANCELLED'')]"
proof -
  have v: "isValidEvent example_other_event"
    by (simp add: isValidEvent_def example_other_event_def)
  have t: "ev_type example_other_event \<noteq> Some ''ORDER_CREATED''"
    by (simp add: example_other_event_def)
  from handle_ignores_other_types [OF v t, of failing_service "''0''" "initial_state example_service"]
  show ?thesis
    by (simp add: initial_state_def example_other_event_def)
qed

text \<open>
  Claim C10. Two structurally valid \<open>ORDER_CREATED\<close> events without a
  \<open>data.orderId\<close> and with the same timestamp \<open>ts\<close> have the same identity,
  \<open>ORDER_CREATED-unknown-ts\<close>; once the first has been handled without an error, the
  second is logged as a duplicate and the notification service is not called for it.
\<close>

theorem missing_orderId_collides:
  assumes "isValidEvent e1" and "isValidEvent e2"
    and "ev_type e1 = Some ''ORDER_CREATED''" and "ev_type e2 = Some ''ORDER_CREATED''"
    and "map_option ed_orderId (ev_data e1) = Some None"
    and "map_option ed_orderId (ev_data e2) = Some None"
    and "ev_timestamp e1 = Some ts" and "ev_timestamp e2 = Some ts"
  shows "generateEventId now e1 = ''ORDER_CREATED-unknown-'' @ ts \<and>
         generateEventId now' e2 = ''ORDER_CREATED-unknown-'' @ ts \<and>
         (handle orch now e1 s = (Inr (), s1) \<longrightarrow>
            handle orch now' e2 s1 =
              (Inr (), say (LogDuplicateIgnored (Some ''ORDER_CREATED'')
                              (''ORDER_CREATED-unknown-'' @ ts)) s1) \<and>
            orchestrator_calls (snd (handle orch now' e2 s1)) = orchestrator_calls s1)"
proof -
  from assms(1,7) have ts: "ts \<noteq> []" by (simp add: isValidEvent_def)
  have id1: "generateEventId now e1 = ''ORDER_CREATED-unknown-'' @ ts"
    using assms(3,5,7) ts by (auto simp: generateEventId_def)
  have id2: "generateEventId now' e2 = ''ORDER_CREATED-unknown-'' @ ts"
    using assms(4,6,8) ts by (auto simp: generateEventId_def)
  have "handle orch now' e2 s1 =
              (Inr (), say (LogDuplicateIgnored (Some ''ORDER_CREATED'')
                              (''ORDER_CREATED-unknown-'' @ ts)) s1) \<and>
            orchestrator_calls (snd (handle orch now' e2 s1)) = orchestrator_calls s1"
    if h: "handle orch now e1 s = (Inr (), s1)"
  proof -
    from handle_ok_recorded [OF assms(1,3) h] id1 id2
    have "generateEventId now' e2 \<in> set (processedEvents s1)" by simp
    from handle_duplicate [OF assms(2) this, of orch] id2 assms(4)
    show ?thesis by (simp add: say_def)
  qed
  with id1 id2 show ?thesis by blast
qed

text \<open>Two events of different customers: only the first customer is notified.\<close>

theorem missing_orderId_collides_witness:
  "example_anonymous_event ''a@b.com'' \<noteq> example_anonymous_event ''c@d.com'' \<and>
   fst (handle (sendOrderConfirmation example_channels ''t'') ''0''
          (example_anonymous_event ''a@b.com'') (initial_state example_service)) = Inr () \<and>
   orchestrator_calls (snd (handle (sendOrderConfirmation example_channels ''t'') ''1''
      (example_anonymous_event ''c@d.com'')
      (snd (handle (sendOrderConfirmation example_channels ''t'') ''0''
          (example_anonymous_event ''a@b.com'') (initial_state example_service)))))
    = [\<lparr> ed_orderId = None, ed_customerEmail = Some ''a@b.com'' \<rparr>]"
proof -
  let ?orch = "sendOrderConfirmation example_channels ''t''"
  let ?e1 = "example_anonymous_event ''a@b.com''"
  let ?e2 = "example_anonymous_event ''c@d.com''"
  let ?s = "initial_state example_service"
  have v: "isValidEvent ?e1" "isValidEvent ?e2"
    by (simp_all add: isValidEvent_def example_anonymous_event_def)
  have t: "ev_type ?e1 = Some ''ORDER_CREATED''" "ev_type ?e2 = Some ''ORDER_CREATED''"
    by (simp_all add: example_anonymous_event_def)
  have o: "map_option ed_orderId (ev_data ?e1) = Some None"
      "map_option ed_orderId (ev_data ?e2) = Some None"
    by (simp_all add: example_anonymous_event_def)
  have ts: "ev_timestamp ?e1 = Some ''2024-01-01T00:00:00.000Z''"
      "ev_timestamp ?e2 = Some ''2024-01-01T00:00:00.000Z''"
    by (simp_all add: example_anonymous_event_def)
  have h: "handle ?orch ''0'' ?e1 ?s = (Inr (), snd (handle ?orch ''0'' ?e1 ?s))"
    by (simp add: handle_def handleOrderCreated_def sendOrderConfirmation_def
        example_anonymous_event_def isValidEvent_def initial_state_def say_def Let_def
        generateEventId_def)
  have c: "orchestrator_calls (snd (handle ?orch ''0'' ?e1 ?s))
      = [\<lparr> ed_orderId = None, ed_customerEmail = Some ''a@b.com'' \<rparr>]"
    by (simp add: handle_def handleOrderCreated_def sendOrderConfirmation_def
        example_anonymous_event_def isValidEvent_def initial_state_def say_def Let_def
        generateEventId_def)
  have d: "?e1 \<noteq> ?e2" by (simp add: example_anonymous_event_def)
  from missing_orderId_collides [OF v t o ts, of "''0''" "''1''" ?orch ?s
      "snd (handle ?orch ''0'' ?e1 ?s)"] h
  have "orchestrator_calls (snd (handle ?orch ''1'' ?e2 (snd (handle ?orch ''0'' ?e1 ?s))))
      = orchestrator_calls (snd (handle ?orch ''0'' ?e1 ?s))"
    by blast
  moreover have "fst (handle ?orch ''0'' ?e1 ?s) = Inr ()"
    using h by (metis fst_conv)
  ultimately show ?thesis using c d by simp
qed

section \<open>The Consumer: what becomes of a handler error\<close>

text \<open>
  Claim C4, as stated, fails: with a notification service that throws, \<open>handle\<close>
  raises the error on the example event, and the \<open>eachMessage\<close> callback returns
  normally on the record that carries it.
\<close>

theorem eachMessage_swallows_counterexample:
  "fst (handle failing_service ''0'' example_event
          (say (LogReceivedMessage ''42'') (initial_state example_service)))
     = Inl (JsError ''notification service down'') \<and>
   fst (eachMessage example_env failing_service ''0'' example_record
          (initial_state example_service)) = Inr ()"
  by (simp add: eachMessage_def processMessage_def parseMessage_def example_env_def
      example_record_def handle_def handleOrderCreated_def failing_service_def
      example_event_def isValidEvent_def generateEventId_def initial_state_def say_def Let_def)

text \<open>
  Claim C4, amended. When a record parses, the heartbeat resolves and \<open>handle\<close>
  raises an error, the error propagates out of \<open>processMessage\<close>, which logs it;
  the \<open>eachMessage\<close> callback catches it, logs it and returns normally. The consumer
  does not call the handler again: the calls on the notification service, its state
  and the set of processed identities are those that the one \<open>handle\<close> call left.
\<close>

theorem handler_error_reaches_eachMessage:
  assumes "json_parse env (rec_value message) = Inr event" and "heartbeat env = None"
    and "handle orch now event (say (LogReceivedMessage (rec_offset message)) s) = (Inl err, s')"
  shows "processMessage env orch now message s =
           (Inl err, say (ErrFailedToProcessMessage (rec_offset message) err) s') \<and>
         eachMessage env orch now message s =
           (Inr (), say (ErrProcessingMessage err)
                      (say (ErrFailedToProcessMessage (rec_offset message) err) s')) \<and>
         orchestrator_calls (snd (eachMessage env orch now message s)) = orchestrator_calls s' \<and>
         service (snd (eachMessage env orch now message s)) = service s' \<and>
         processedEvents (snd (eachMessage env orch now message s)) = processedEvents s'"
  using assms
  by (simp add: eachMessage_def processMessage_def parseMessage_def say_def)

text \<open>The example record with a notification service that throws.\<close>

theorem handler_error_reaches_eachMessage_witness:
  "processMessage example_env failing_service ''0'' example_record (initial_state example_service)
     = (Inl (JsError ''notification service down''),
        \<lparr> processedEvents = [], service = example_service,
          orchestrator_calls = [\<lparr> ed_orderId = Some ''o1'', ed_customerEmail = Some ''a@b.com'' \<rparr>],
          console = [LogReceivedMessage ''42'',
                     LogProcessingEvent (Some ''ORDER_CREATED'') (Some ''o1''),
                     LogNewOrder (Some ''o1'') (Some ''a@b.com''),
                     ErrConfirmationFailed (JsError ''notification service down''),
                     ErrFailedToProcessEvent (JsError ''notification service down''),
                     ErrFailedToProcessMessage ''42'' (JsError ''notification service down'')] \<rparr>) \<and>
   fst (eachMessage example_env failing_service ''0'' example_record
          (initial_state example_service)) = Inr () \<and>
   orchestrator_calls (snd (eachMessage example_env failing_service ''0'' example_record
          (initial_state example_service)))
     = [\<lparr> ed_orderId = Some ''o1'', ed_customerEmail = Some ''a@b.com'' \<rparr>]"
proof -
  let ?s' = "\<lparr> processedEvents = [], service = example_service,
          orchestrator_calls = [\<lparr> ed_orderId = Some ''o1'', ed_customerEmail = Some ''a@b.com'' \<rparr>],
          console = [LogReceivedMessage ''42'',
                     LogProcessingEvent (Some ''ORDER_CREATED'') (Some ''o1''),
                     LogNewOrder (Some ''o1'') (Some ''a@b.com''),
                     ErrConfirmationFailed (JsError ''notification service down''),
                     ErrFailedToProcessEvent (JsError ''notification service down'')] \<rparr>"
  have p: "json_parse example_env (rec_value example_record) = Inr example_event"
    by (simp add: example_env_def)
  have hb: "heartbeat example_env = None"
    by (simp add: example_env_def)
  have h: "handle failing_service ''0'' example_event
      (say (LogReceivedMessage (rec_offset example_record)) (initial_state example_service))
      = (Inl (JsError ''notification service down''), ?s')"
    by (simp add: example_record_def handle_def handleOrderCreated_def failing_service_def
      example_event_def isValidEvent_def generateEventId_def initial_state_def say_def Let_def)
  from handler_error_reaches_eachMessage [OF p hb h]
  show ?thesis by (simp add: say_def example_record_def)
qed

section \<open>The Notification Orchestrator: one channel\<close>

text \<open>
  Claim C6, as stated, fails: when the email sender fails and the SMS sender would
  succeed, the record of \<open>sendOrderConfirmation\<close> does not hold one \<open>success\<close> and one
  \<open>failed\<close> entry.
\<close>

theorem sendOrderConfirmation_two_entries_counterexample:
  "isl (email_sendOrderConfirmation email_down_channels
          \<lparr> ed_orderId = Some ''o1'', ed_customerEmail = Some ''a@b.com'' \<rparr>) \<and>
   \<not> isl (sms_sendOrderConfirmationSMS email_down_channels
          \<lparr> ed_orderId = Some ''o1'', ed_customerEmail = Some ''a@b.com'' \<rparr>) \<and>
   \<not> (count_status ''success''
         (projr (fst (sendOrderConfirmation email_down_channels ''t''
            \<lparr> ed_orderId = Some ''o1'', ed_customerEmail = Some ''a@b.com'' \<rparr> example_service))) = 1 \<and>
       count_status ''failed''
         (projr (fst (sendOrderConfirmation email_down_channels ''t''
            \<lparr> ed_orderId = Some ''o1'', ed_customerEmail = Some ''a@b.com'' \<rparr> example_service))) = 1)"
  by (simp add: sendOrderConfirmation_def email_down_channels_def example_channels_def
      count_status_def Let_def)

text \<open>
  Claim C6, amended. \<open>sendOrderConfirmation\<close> calls the email sender only. Whether the
  send succeeds or fails, the call returns normally with a record of exactly one
  entry, of type \<open>email\<close>, whose status is \<open>failed\<close> when the sender threw and \<open>success\<close>
  otherwise; the SMS sender is not called, and the record is appended to the history
  of the order.
\<close>

theorem sendOrderConfirmation_email_only:
  "\<exists>r ns'. sendOrderConfirmation ch now orderData ns = (Inr r, ns') \<and>
     length (nr_notifications r) = 1 \<and>
     n_type (hd (nr_notifications r)) = ''email'' \<and>
     n_status (hd (nr_notifications r)) =
       (if isl (email_sendOrderConfirmation ch orderData) then ''failed'' else ''success'') \<and>
     count_status ''success'' r + count_status ''failed'' r = 1 \<and>
     email_calls ns' = email_calls ns @ [orderData] \<and>
     sms_calls ns' = sms_calls ns \<and>
     getNotificationHistory (ed_orderId orderData) ns' =
       getNotificationHistory (ed_orderId orderData) ns @
         [\<lparr> he_type = ''ORDER_CONFIRMATION'', he_result = r, he_timestamp = now \<rparr>]"
proof (cases "email_sendOrderConfirmation ch orderData")
  case (Inl e)
  then show ?thesis
    by (cases e) (simp add: sendOrderConfirmation_def storeNotificationHistory_def
        getNotificationHistory_def count_status_def Let_def)
next
  case (Inr res)
  then show ?thesis
    by (simp add: sendOrderConfirmation_def storeNotificationHistory_def
        getNotificationHistory_def count_status_def Let_def)
qed

text \<open>With the email sender down, the record is one \<open>failed\<close> entry and no SMS is sent.\<close>

theorem sendOrderConfirmation_email_only_witness:
  "map n_status (nr_notifications (projr (fst (sendOrderConfirmation email_down_channels ''t''
      \<lparr> ed_orderId = Some ''o1'', ed_customerEmail = Some ''a@b.com'' \<rparr> example_service))))
     = [''failed''] \<and>
   sms_calls (snd (sendOrderConfirmation email_down_channels ''t''
      \<lparr> ed_orderId = Some ''o1'', ed_customerEmail = Some ''a@b.com'' \<rparr> example_service)) = []"
proof -
  from sendOrderConfirmation_email_only [of email_down_channels "''t''"
      "\<lparr> ed_orderId = Some ''o1'', ed_customerEmail = Some ''a@b.com'' \<rparr>" example_service]
  obtain r ns' where r: "sendOrderConfirmation email_down_channels ''t''
      \<lparr> ed_orderId = Some ''o1'', ed_customerEmail = Some ''a@b.com'' \<rparr> example_service = (Inr r, ns')"
    and one: "length (nr_notifications r) = 1"
    and st: "n_status (hd (nr_notifications r)) =
       (if isl (email_sendOrderConfirmation email_down_channels
           \<lparr> ed_orderId = Some ''o1'', ed_customerEmail = Some ''a@b.com'' \<rparr>)
        then ''failed'' else ''success'')"
    and sms: "sms_calls ns' = sms_calls example_service"
    by blast
  from one obtain n where n: "nr_notifications r = [n]"
    by (cases "nr_notifications r") auto
  from st n have "n_status n = ''failed''"
    by (simp add: email_down_channels_def)
  with r n sms show ?thesis by (simp add: example_service_def)
qed

section \<open>The event validator: unknown fields and defaults\<close>

lemma map_of_obj_set: "map_of (obj_set k v kvs) = (map_of kvs)(k \<mapsto> v)"
  by (induction kvs) (auto simp: fun_eq_iff)

lemma keys_obj_set: "fst ` set (obj_set k v kvs) = insert k (fst ` set kvs)"
proof -
  have "fst ` set (obj_set k v kvs) = dom (map_of (obj_set k v kvs))"
    by (simp add: dom_map_of_conv_image_fst)
  also have "\<dots> = insert k (dom (map_of kvs))"
    by (simp add: map_of_obj_set)
  finally show ?thesis by (simp add: dom_map_of_conv_image_fst)
qed

lemma fields_induct [case_names FNil FCons]:
  assumes "P FNil" and "\<And>k p d sch rest. P rest \<Longrightarrow> P (FCons k p d sch rest)"
  shows "P fs"
proof (induction "size fs" arbitrary: fs rule: less_induct)
  case less
  show ?case
  proof (cases fs)
    case FNil
    then show ?thesis using assms(1) by simp
  next
    case (FCons k p d sch rest)
    then have "size rest < size fs" by simp
    from less [OF this] assms(2) FCons show ?thesis by simp
  qed
qed

lemma validate_fields_step:
  assumes "validate_fields J (FCons k p d sch rest) kvs = Inr kvs'"
  shows "\<exists>kvs1. validate_fields J rest kvs1 = Inr kvs' \<and>
          (kvs1 = kvs \<and> map_of kvs k = None \<and> p = Optional \<and> d = None \<or>
           (\<exists>dv. kvs1 = obj_set k dv kvs \<and> map_of kvs k = None \<and> p = Optional \<and> d = Some dv) \<or>
           (\<exists>v v'. kvs1 = obj_set k v' kvs \<and> map_of kvs k = Some v \<and>
                     validate_value J sch v = Inr v'))"
proof (cases "map_of kvs k")
  case None
  show ?thesis
  proof (cases p)
    case Required
    with None assms show ?thesis by simp
  next
    case Optional
    with None assms show ?thesis by (cases d) simp_all
  qed
next
  case (Some v)
  show ?thesis
  proof (cases "validate_value J sch v")
    case (Inl e)
    with Some assms show ?thesis by simp
  next
    case (Inr v')
    with Some assms show ?thesis by simp
  qed
qed

lemma validate_fields_frame:
  "validate_fields J fs kvs = Inr kvs' \<Longrightarrow> k \<notin> set (field_names fs) \<Longrightarrow>
     map_of kvs' k = map_of kvs k"
proof (induction fs arbitrary: kvs rule: fields_induct)
  case FNil
  then show ?case by simp
next
  case (FCons k' p d sch rest)
  from validate_fields_step [OF FCons.prems(1)] obtain kvs1
    where r: "validate_fields J rest kvs1 = Inr kvs'"
      and k1: "kvs1 = kvs \<or> (\<exists>v. kvs1 = obj_set k' v kvs)"
    by blast
  from FCons.prems(2) have ne: "k \<noteq> k'" and nr: "k \<notin> set (field_names rest)" by simp_all
  from k1 ne have "map_of kvs1 k = map_of kvs k"
    by (auto simp: map_of_obj_set)
  with FCons.IH [OF r nr] show ?case by simp
qed

lemma validate_fields_keys:
  "validate_fields J fs kvs = Inr kvs' \<Longrightarrow>
     fst ` set kvs \<subseteq> fst ` set kvs' \<and> fst ` set kvs' \<subseteq> fst ` set kvs \<union> set (default_names fs)"
proof (induction fs arbitrary: kvs rule: fields_induct)
  case FNil
  then show ?case by simp
next
  case (FCons k' p d sch rest)
  from validate_fields_step [OF FCons.prems(1)] obtain kvs1
    where r: "validate_fields J rest kvs1 = Inr kvs'"
      and k1: "kvs1 = kvs \<or>
           (\<exists>dv. kvs1 = obj_set k' dv kvs \<and> d = Some dv) \<or>
           (\<exists>v v'. kvs1 = obj_set k' v' kvs \<and> map_of kvs k' = Some v)"
    by blast
  let ?K = "fst ` set kvs"
  let ?D = "set (default_names (FCons k' p d sch rest))"
  have AB: "?K \<subseteq> fst ` set kvs1 \<and> fst ` set kvs1 \<subseteq> ?K \<union> ?D"
    using k1
  proof (elim disjE exE conjE)
    assume "kvs1 = kvs"
    then show ?thesis by simp
  next
    fix dv assume a: "kvs1 = obj_set k' dv kvs" "d = Some dv"
    then have e: "fst ` set kvs1 = insert k' ?K" by (simp add: keys_obj_set)
    have "default_names (FCons k' p d sch rest) = k' # default_names rest"
      unfolding a(2) by simp
    then have "k' \<in> ?D" by simp
    then show ?thesis unfolding e by (simp add: subset_insertI)
  next
    fix v v' assume a: "kvs1 = obj_set k' v' kvs" "map_of kvs k' = Some v"
    then have "k' \<in> ?K" using map_of_eq_None_iff [of kvs k'] by simp
    then have "insert k' ?K = ?K" by (rule insert_absorb)
    with a have "fst ` set kvs1 = ?K" by (simp add: keys_obj_set)
    then show ?thesis by simp
  qed
  have n: "set (default_names rest) \<subseteq> ?D"
    by (cases d) (simp_all add: subset_insertI)
  from FCons.IH [OF r] have ih: "fst ` set kvs1 \<subseteq> fst ` set kvs'"
    "fst ` set kvs' \<subseteq> fst ` set kvs1 \<union> set (default_names rest)" by simp_all
  show ?case
  proof
    from AB have "?K \<subseteq> fst ` set kvs1" ..
    then show "?K \<subseteq> fst ` set kvs'" using ih(1) by (rule order_trans)
    from AB have "fst ` set kvs1 \<subseteq> ?K \<union> ?D" ..
    then have "fst ` set kvs1 \<union> set (default_names rest) \<subseteq> (?K \<union> ?D) \<union> ?D"
      using n by (rule Un_mono)
    with ih(2) have "fst ` set kvs' \<subseteq> (?K \<union> ?D) \<union> ?D" by (rule order_trans)
    then show "fst ` set kvs' \<subseteq> ?K \<union> ?D" by (simp add: Un_assoc)
  qed
qed

lemma validate_fields_default:
  "validate_fields J fs kvs = Inr kvs' \<Longrightarrow> distinct (field_names fs) \<Longrightarrow>
   has_default fs k dv \<Longrightarrow> map_of kvs k = None \<Longrightarrow> map_of kvs' k = Some dv"
proof (induction fs arbitrary: kvs rule: fields_induct)
  case FNil
  then show ?case by simp
next
  case (FCons k' p d sch rest)
  from validate_fields_step [OF FCons.prems(1)] obtain kvs1
    where r: "validate_fields J rest kvs1 = Inr kvs'"
      and k1: "kvs1 = kvs \<and> map_of kvs k' = None \<and> p = Optional \<and> d = None \<or>
           (\<exists>dv. kvs1 = obj_set k' dv kvs \<and> map_of kvs k' = None \<and> p = Optional \<and> d = Some dv) \<or>
           (\<exists>v v'. kvs1 = obj_set k' v' kvs \<and> map_of kvs k' = Some v \<and>
                     validate_value J sch v = Inr v')"
    by blast
  from FCons.prems(2) have dr: "distinct (field_names rest)"
    and nr: "k' \<notin> set (field_names rest)" by simp_all
  show ?case
  proof (cases "k = k'")
    case True
    with FCons.prems(3,4) k1 have "kvs1 = obj_set k dv kvs" by auto
    with validate_fields_frame [OF r nr] True show ?thesis
      by (simp add: map_of_obj_set)
  next
    case False
    with k1 FCons.prems(4) have "map_of kvs1 k = None"
      by (auto simp: map_of_obj_set)
    moreover from False FCons.prems(3) have "has_default rest k dv" by simp
    ultimately show ?thesis using FCons.IH [OF r dr] by blast
  qed
qed


lemma orderCreatedEventSchema_keys:
  "field_names orderCreatedEventSchema = envelope_keys"
  "has_default orderCreatedEventSchema ''version'' (JStr ''1.0'')"
  "default_names orderCreatedEventSchema = [''version'']"
  by (simp_all add: orderCreatedEventSchema_def baseEventSchema_def keys_def envelope_keys_def)

lemma orderStatusUpdatedEventSchema_keys:
  "field_names orderStatusUpdatedEventSchema = envelope_keys"
  "has_default orderStatusUpdatedEventSchema ''version'' (JStr ''1.0'')"
  "default_names orderStatusUpdatedEventSchema = [''version'']"
  by (simp_all add: orderStatusUpdatedEventSchema_def baseEventSchema_def keys_def
      envelope_keys_def)

lemma orderCancelledEventSchema_keys:
  "field_names orderCancelledEventSchema = envelope_keys"
  "has_default orderCancelledEventSchema ''version'' (JStr ''1.0'')"
  "default_names orderCancelledEventSchema = [''version'']"
  by (simp_all add: orderCancelledEventSchema_def baseEventSchema_def keys_def envelope_keys_def)

lemma healthCheckEventSchema_keys:
  "field_names healthCheckEventSchema = envelope_keys"
  "has_default healthCheckEventSchema ''version'' (JStr ''1.0'')"
  "default_names healthCheckEventSchema = [''version'']"
  by (simp_all add: healthCheckEventSchema_def baseEventSchema_def keys_def envelope_keys_def)

lemma registry_schemas:
  assumes "map_of eventSchemas ty = Some sch"
  shows "field_names sch = envelope_keys \<and> has_default sch ''version'' (JStr ''1.0'') \<and>
         default_names sch = [''version'']"
proof -
  from assms have "sch = orderCreatedEventSchema \<or> sch = orderStatusUpdatedEventSchema \<or>
      sch = orderCancelledEventSchema \<or> sch = healthCheckEventSchema"
    by (simp add: eventSchemas_def split: if_splits)
  then show ?thesis
    using orderCreatedEventSchema_keys orderStatusUpdatedEventSchema_keys
      orderCancelledEventSchema_keys healthCheckEventSchema_keys
    by (elim disjE) simp_all
qed

lemma validate_object_keys:
  assumes "validate_value J (ObjectKeys fs) (JObj kvs) = Inr v"
  shows "\<exists>kvs'. v = JObj kvs' \<and> validate_fields J fs kvs = Inr kvs' \<and>
           fst ` set kvs \<subseteq> set (field_names fs)"
proof (cases "validate_fields J fs kvs")
  case (Inl e)
  with assms show ?thesis by simp
next
  case (Inr kvs')
  show ?thesis
  proof (cases "filter (\<lambda>k. k \<notin> set (field_names fs)) (map fst kvs)")
    case Nil
    then have "\<forall>k \<in> set (map fst kvs). k \<in> set (field_names fs)"
      by (simp add: filter_empty_conv)
    then have "fst ` set kvs \<subseteq> set (field_names fs)"
      by auto
    moreover from Nil Inr assms have "v = JObj kvs'" by simp
    ultimately show ?thesis using Inr by simp
  next
    case (Cons k ks)
    with Inr assms show ?thesis by simp
  qed
qed

lemma validate_Valid:
  assumes "validate J event = Valid v"
  shows "\<exists>ty sch. map_of event ''type'' = Some (JStr ty) \<and> map_of eventSchemas ty = Some sch \<and>
           validate_value J (ObjectKeys sch) (JObj event) = Inr v"
proof (cases "validate_value J (ObjectKeys baseEventSchema) (JObj event)")
  case (Inl m)
  with assms show ?thesis by (simp add: validate_def)
next
  case base: (Inr b)
  show ?thesis
  proof (cases "map_of event ''type''")
    case None
    with assms base show ?thesis by (simp add: validate_def)
  next
    case (Some t)
    show ?thesis
    proof (cases t)
      case (JStr ty)
      show ?thesis
      proof (cases "map_of eventSchemas ty")
        case None
        with assms base Some JStr show ?thesis by (simp add: validate_def split: if_splits)
      next
        case sch: (Some eventSchema)
        show ?thesis
        proof (cases "validate_value J (ObjectKeys eventSchema) (JObj event)")
          case (Inl m)
          with assms base Some JStr sch show ?thesis by (simp add: validate_def)
        next
          case (Inr v')
          with assms base Some JStr sch show ?thesis by (simp add: validate_def)
        qed
      qed
    qed (use assms base Some in \<open>simp_all add: validate_def\<close>)
  qed
qed

lemma example_health_event_valid:
  "validate example_joi example_health_event =
     Valid (JObj
       [(''id'', JStr ''123e4567-e89b-42d3-a456-426614174000''),
        (''type'', JStr ''HEALTH_CHECK''),
        (''timestamp'', JDate ''2024-01-01T00:00:00.000Z''),
        (''source'', JStr ''order-service''),
        (''data'', JObj [(''service'', JStr ''order-service''), (''status'', JStr ''UP''),
                         (''timestamp'', JDate ''2024-01-01T00:00:00.000Z'')]),
        (''version'', JStr ''1.0'')])"
  by (simp add: validate_def example_joi_def example_health_event_def baseEventSchema_def
      eventSchemas_def healthCheckEventSchema_def keys_def)

text \<open>
  Claim C8, as stated, fails: the example event validates, and the same event with
  one more field, \<open>traceId\<close>, does not validate; the field is not removed, it is an
  error. No recogniser is consulted for the unknown field, so this holds whatever
  the recognisers of GUIDs, e-mail addresses, dates and numbers accept.
\<close>

theorem validate_strips_unknown_counterexample:
  "isValid (validate example_joi example_health_event) \<and>
   \<not> isValid (validate example_joi (example_health_event @ [(''traceId'', JStr ''abc'')]))"
  by (simp add: validate_def example_joi_def example_health_event_def baseEventSchema_def
      eventSchemas_def healthCheckEventSchema_def keys_def)

text \<open>
  Claim C8, amended. \<open>validate\<close> computes its result from the event and writes nothing
  to it. When it succeeds, every key of the event is one of the seven envelope keys
  (\<open>id\<close>, \<open>type\<close>, \<open>timestamp\<close>, \<open>version\<close>, \<open>source\<close>, \<open>data\<close>, \<open>metadata\<close>): an event
  with any other field is rejected. The object returned has the keys of the event
  and \<open>version\<close>, which is \<open>1.0\<close> when the event has none.
\<close>

theorem validate_rejects_unknown_fields:
  assumes "validate J event = Valid v"
  shows "\<exists>sanitized. v = JObj sanitized \<and>
           fst ` set event \<subseteq> set envelope_keys \<and>
           fst ` set sanitized = insert ''version'' (fst ` set event) \<and>
           (map_of event ''version'' = None \<longrightarrow>
              map_of sanitized ''version'' = Some (JStr ''1.0''))"
proof -
  from validate_Valid [OF assms] obtain ty sch where reg: "map_of eventSchemas ty = Some sch"
    and val: "validate_value J (ObjectKeys sch) (JObj event) = Inr v"
    by blast
  from registry_schemas [OF reg] have names: "field_names sch = envelope_keys"
    and dflt: "has_default sch ''version'' (JStr ''1.0'')"
    and dn: "default_names sch = [''version'']" by simp_all
  from validate_object_keys [OF val] obtain sanitized where v: "v = JObj sanitized"
    and f: "validate_fields J sch event = Inr sanitized"
    and known: "fst ` set event \<subseteq> set (field_names sch)" by blast
  have d: "distinct (field_names sch)"
    by (simp add: names envelope_keys_def)
  from validate_fields_keys [OF f] have sub: "fst ` set event \<subseteq> fst ` set sanitized"
    and sup: "fst ` set sanitized \<subseteq> insert ''version'' (fst ` set event)"
    by (simp_all add: dn)
  have ver: "''version'' \<in> fst ` set sanitized"
  proof (cases "map_of event ''version''")
    case None
    from validate_fields_default [OF f d dflt None]
    have "map_of sanitized ''version'' \<noteq> None" by simp
    then show ?thesis by (simp add: map_of_eq_None_iff)
  next
    case (Some a)
    then have "map_of event ''version'' \<noteq> None" by simp
    then have "''version'' \<in> fst ` set event" by (simp add: map_of_eq_None_iff)
    with sub show ?thesis by (rule subsetD)
  qed
  have "insert ''version'' (fst ` set event) \<subseteq> fst ` set sanitized"
    using ver sub by (rule insert_subsetI)
  with sup have eq: "fst ` set sanitized = insert ''version'' (fst ` set event)"
    by (rule equalityI)
  have k: "fst ` set event \<subseteq> set envelope_keys"
    using known by (simp add: names)
  have dv: "map_of event ''version'' = None \<longrightarrow>
              map_of sanitized ''version'' = Some (JStr ''1.0'')"
    using validate_fields_default [OF f d dflt] by (rule impI)
  from v k eq dv show ?thesis by (intro exI [of _ sanitized] conjI)
qed

text \<open>The example event has no \<open>version\<close>; the validated copy has \<open>version\<close> 1.0.\<close>

theorem validate_rejects_unknown_fields_witness:
  "isValid (validate example_joi example_health_event) \<and>
   map_of example_health_event ''version'' = None \<and>
   fst ` set example_health_event \<subseteq> set envelope_keys \<and>
   (\<exists>sanitized. validate example_joi example_health_event = Valid (JObj sanitized) \<and>
      map_of sanitized ''version'' = Some (JStr ''1.0''))"
proof -
  obtain v where valid: "validate example_joi example_health_event = Valid v"
    by (rule that [OF example_health_event_valid])
  have none: "map_of example_health_event ''version'' = None"
    by (simp add: example_health_event_def)
  have ok: "isValid (validate example_joi example_health_event)"
    unfolding valid by simp
  from validate_rejects_unknown_fields [OF valid] show ?thesis
  proof (elim exE conjE)
    fix sanitized
    assume v: "v = JObj sanitized"
      and known: "fst ` set example_health_event \<subseteq> set envelope_keys"
      and dflt: "map_of example_health_event ''version'' = None \<longrightarrow>
              map_of sanitized ''version'' = Some (JStr ''1.0'')"
    from dflt none have ver: "map_of sanitized ''version'' = Some (JStr ''1.0'')" by (rule mp)
    have r: "validate example_joi example_health_event = Valid (JObj sanitized)"
      unfolding valid v by (rule refl)
    from r ver have "\<exists>sanitized. validate example_joi example_health_event = Valid (JObj sanitized) \<and>
      map_of sanitized ''version'' = Some (JStr ''1.0'')"
      by (intro exI [of _ sanitized] conjI)
    with ok none known show ?thesis by (intro conjI)
  qed
qed


end
